theory Spec2Isabelle
  imports Complex_Main "HOL-Library.Log_Nat"
begin

section \<open>flutter\_pub\_cleaner: a shallow embedding of \<open>flutter_pub_cleaner.py\<close>\<close>

text \<open>
  The program is one Python script.  Its pure functions are HOL functions; raising is
  a value \<open>Inl e\<close> of the sum type \<open>exc + 'a\<close>; the console, the file system and the
  external command are fields of an explicit \<open>world\<close> that every effectful function
  takes and returns.

  Conventions of the embedding:
  \<^item> Python's unbounded \<open>int\<close> is \<open>int\<close>.
  \<^item> A Python \<open>float\<close> is represented by the rational number it denotes.  The only
    floats that \<open>format_size\<close> builds come from \<open>float(n)\<close> for an integer \<open>n\<close> and from
    dividing such a value, while it is at least 1024, by 1024; both are described
    exactly below (\<open>float_mag\<close>), so no rounding is left unmodelled there.
  \<^item> A path is the list of its components, so \<open>os.path.join(p, name)\<close> is \<open>p @ [name]\<close>.
  \<^item> The texts printed by the script are kept without their emoji, which are not ASCII.
\<close>

subsection \<open>Exceptions\<close>

datatype exc =
    OverflowError
  | ZeroDivisionError
  | EOFError
  | KeyboardInterrupt
  | OSError
  | FileNotFoundError
  | PermissionError
  | NotADirectoryError
  | UnicodeDecodeError
  | CalledProcessError int string string  \<comment> \<open>return code, captured stdout, captured stderr\<close>

text \<open>\<open>FileNotFoundError\<close>, \<open>PermissionError\<close> and \<open>NotADirectoryError\<close> are subclasses of
  \<open>OSError\<close>; \<open>UnicodeDecodeError\<close> is a \<open>ValueError\<close> and no \<open>OSError\<close>; every exception
  except \<open>KeyboardInterrupt\<close> is an \<open>Exception\<close>.\<close>

definition is_OSError :: "exc \<Rightarrow> bool" where
  "is_OSError e = (e = OSError \<or> e = FileNotFoundError \<or> e = PermissionError \<or> e = NotADirectoryError)"

definition is_Exception :: "exc \<Rightarrow> bool" where
  "is_Exception e = (e \<noteq> KeyboardInterrupt)"

subsection \<open>Strings and numbers\<close>

definition digit_char :: "int \<Rightarrow> char" where
  "digit_char d = ''0123456789'' ! nat d"

function str_digits :: "int \<Rightarrow> string" where
  "str_digits n = (if n < 10 then [digit_char n] else str_digits (n div 10) @ [digit_char (n mod 10)])"
  by pat_completeness auto
termination
  by (relation "measure nat") auto

declare str_digits.simps [simp del]

text \<open>\<open>str(i)\<close> for an integer \<open>i\<close>.\<close>

definition str_int :: "int \<Rightarrow> string" where
  "str_int i = (if i < 0 then CHR ''-'' # str_digits (- i) else str_digits i)"

text \<open>
  \<open>float(n)\<close> for an integer \<open>n\<close>: the nearest IEEE binary64 value, ties to the even
  significand.  Below \<open>2 ^ 53\<close> every integer is a float.  From there on the magnitude
  keeps its 53 leading bits: with \<open>e\<close> the number of bits dropped, the quotient
  \<open>a div 2 ^ e\<close> is rounded up when the remainder is above half, or is half and the
  quotient is odd.  When the rounded magnitude reaches \<open>2 ^ 1024\<close> Python raises
  \<open>OverflowError\<close> (int too large to convert to float).
\<close>

definition float_mag :: "int \<Rightarrow> int" where
  "float_mag a =
     (if a < 2 ^ 53 then a
      else
        let e = nat (bitlen a) - 53;
            q = a div 2 ^ e;
            r = a mod 2 ^ e;
            half = 2 ^ (e - 1);
            m = (if r > half \<or> (r = half \<and> odd q) then q + 1 else q)
        in m * 2 ^ e)"

definition py_float :: "int \<Rightarrow> exc + rat" where
  "py_float n =
     (let v = float_mag \<bar>n\<bar> in
      if v \<ge> 2 ^ 1024 then Inl OverflowError else Inr (of_int (sgn n * v)))"

text \<open>\<open>int(x)\<close> for a float \<open>x\<close> truncates towards zero.\<close>

definition py_int :: "rat \<Rightarrow> int" where
  "py_int x = (if x < 0 then \<lceil>x\<rceil> else \<lfloor>x\<rfloor>)"

definition round_half_even :: "rat \<Rightarrow> int" where
  "round_half_even x =
     (let f = \<lfloor>x\<rfloor>; d = x - of_int f in
      if d > 1 / 2 \<or> (d = 1 / 2 \<and> odd f) then f + 1 else f)"

text \<open>The format \<open>{x:.2f}\<close>: the decimal with two fraction digits nearest to the exact
  value of the float, ties to even.\<close>

definition fmt_2f :: "rat \<Rightarrow> string" where
  "fmt_2f x =
     (let h = round_half_even (\<bar>x\<bar> * 100) in
      (if x < 0 then ''-'' else '''') @ str_digits (h div 100) @ ''.'' @
      [digit_char (h mod 100 div 10), digit_char (h mod 10)])"

subsection \<open>\<open>format_size\<close>\<close>

definition size_units :: "string list" where
  "size_units = [''B'', ''KB'', ''MB'', ''GB'', ''TB'']"

text \<open>The \<open>while\<close> loop of \<open>format_size\<close>.  Dividing a float that is at least 1024 by
  1024 only lowers its exponent, so the quotient is exact.\<close>

function convert :: "rat \<Rightarrow> nat \<Rightarrow> rat \<times> nat" where
  "convert sz unit_index =
     (if sz \<ge> 1024 \<and> unit_index < length size_units - 1
      then convert (sz / 1024) (unit_index + 1)
      else (sz, unit_index))"
  by pat_completeness auto
termination
  by (relation "measure (\<lambda>(sz, unit_index). length size_units - 1 - unit_index)") auto

declare convert.simps [simp del]

definition format_size :: "int \<Rightarrow> exc + string" where
  "format_size size_bytes =
     (if size_bytes = 0 then Inr ''0 B''
      else case py_float size_bytes of
        Inl e \<Rightarrow> Inl e
      | Inr size0 \<Rightarrow>
          (case convert size0 0 of (sz, unit_index) \<Rightarrow>
             if unit_index = 0
             then Inr (str_int (py_int sz) @ '' '' @ size_units ! unit_index)
             else Inr (fmt_2f sz @ '' '' @ size_units ! unit_index)))"

subsection \<open>Text\<close>

text \<open>
  A character of a text is a code point below 256, which is what \<open>char\<close> holds; text
  with higher code points is outside the embedding.

  \<open>str.strip()\<close> removes white space at both ends.  Below 256 the white space of Python
  is the tab, the line feed, the vertical tab, the form feed, the carriage return, the
  four separators \<open>0x1C\<close> to \<open>0x1F\<close>, the blank, the next line \<open>0x85\<close> and the no-break
  space \<open>0xA0\<close>.

  \<open>str.lower()\<close> maps each capital letter to its small letter.  Below 256 the capital
  letters are \<open>A\<close> to \<open>Z\<close> and \<open>0xC0\<close> to \<open>0xDE\<close> without the multiplication sign \<open>0xD7\<close>; the
  small letter is 32 further.
\<close>

definition py_isspace :: "char \<Rightarrow> bool" where
  "py_isspace c = (c \<in> set [CHR 0x09, CHR 0x0A, CHR 0x0B, CHR 0x0C, CHR 0x0D,
                              CHR 0x1C, CHR 0x1D, CHR 0x1E, CHR 0x1F, CHR 0x20,
                              CHR 0x85, CHR 0xA0])"

definition strip :: "string \<Rightarrow> string" where
  "strip s = rev (dropWhile py_isspace (rev (dropWhile py_isspace s)))"

definition capital_letters :: string where
  "capital_letters = ''ABCDEFGHIJKLMNOPQRSTUVWXYZ'' @
     [CHR 0xC0, CHR 0xC1, CHR 0xC2, CHR 0xC3, CHR 0xC4, CHR 0xC5, CHR 0xC6, CHR 0xC7,
      CHR 0xC8, CHR 0xC9, CHR 0xCA, CHR 0xCB, CHR 0xCC, CHR 0xCD, CHR 0xCE, CHR 0xCF,
      CHR 0xD0, CHR 0xD1, CHR 0xD2, CHR 0xD3, CHR 0xD4, CHR 0xD5, CHR 0xD6,
      CHR 0xD8, CHR 0xD9, CHR 0xDA, CHR 0xDB, CHR 0xDC, CHR 0xDD, CHR 0xDE]"

definition small_letters :: string where
  "small_letters = ''abcdefghijklmnopqrstuvwxyz'' @
     [CHR 0xE0, CHR 0xE1, CHR 0xE2, CHR 0xE3, CHR 0xE4, CHR 0xE5, CHR 0xE6, CHR 0xE7,
      CHR 0xE8, CHR 0xE9, CHR 0xEA, CHR 0xEB, CHR 0xEC, CHR 0xED, CHR 0xEE, CHR 0xEF,
      CHR 0xF0, CHR 0xF1, CHR 0xF2, CHR 0xF3, CHR 0xF4, CHR 0xF5, CHR 0xF6,
      CHR 0xF8, CHR 0xF9, CHR 0xFA, CHR 0xFB, CHR 0xFC, CHR 0xFD, CHR 0xFE]"

definition lower_char :: "char \<Rightarrow> char" where
  "lower_char c =
     (case map_of (zip capital_letters small_letters) c of Some l \<Rightarrow> l | None \<Rightarrow> c)"

definition lower :: "string \<Rightarrow> string" where
  "lower s = map lower_char s"

definition startswith :: "string \<Rightarrow> string \<Rightarrow> bool" where
  "startswith s p = (take (length p) s = p)"

subsection \<open>The file system\<close>

text \<open>
  A file system is a tree.  A directory lists named entries and may be unreadable
  (\<open>Dir False\<close>: listing it fails, its entries can still be reached by name).  What
  \<open>stat\<close> says about an entry that is not a directory is its \<open>fstat\<close>: \<open>Sized n\<close> for a
  file of \<open>n\<close> bytes, \<open>Gone\<close> when \<open>stat\<close> fails (a dangling link, a file removed
  after the listing), \<open>Vanishing\<close> when \<open>os.path.exists\<close> still succeeds and the following
  \<open>os.path.getsize\<close> raises.
\<close>

datatype fstat = Sized nat | Gone | Vanishing

datatype node = File fstat | Dir bool "(string \<times> node) list"

type_synonym path = "string list"

fun lookup :: "node \<Rightarrow> path \<Rightarrow> node option" where
  "lookup t [] = Some t"
| "lookup (File s) (name # p) = None"
| "lookup (Dir r es) (name # p) = (case map_of es name of None \<Rightarrow> None | Some c \<Rightarrow> lookup c p)"

text \<open>\<open>os.path.exists\<close>, \<open>os.path.isdir\<close>, \<open>os.listdir\<close> and \<open>os.path.getsize\<close>.\<close>

definition stat_exists :: "node \<Rightarrow> bool" where
  "stat_exists t = (case t of File Gone \<Rightarrow> False | _ \<Rightarrow> True)"

definition path_exists :: "node \<Rightarrow> path \<Rightarrow> bool" where
  "path_exists tree p = (case lookup tree p of None \<Rightarrow> False | Some t \<Rightarrow> stat_exists t)"

definition isdir :: "node \<Rightarrow> path \<Rightarrow> bool" where
  "isdir tree p = (case lookup tree p of Some (Dir r es) \<Rightarrow> True | _ \<Rightarrow> False)"

definition listdir :: "node \<Rightarrow> path \<Rightarrow> exc + string list" where
  "listdir tree p =
     (case lookup tree p of
        None \<Rightarrow> Inl FileNotFoundError
      | Some (File s) \<Rightarrow> Inl NotADirectoryError
      | Some (Dir r es) \<Rightarrow> if r then Inr (map fst es) else Inl PermissionError)"

definition getsize :: "fstat \<Rightarrow> exc + int" where
  "getsize s = (case s of Sized n \<Rightarrow> Inr (int n) | _ \<Rightarrow> Inl FileNotFoundError)"

text \<open>
  \<open>os.walk\<close> with its defaults, top down: a directory that cannot be listed is skipped
  without an error (\<open>onerror\<close> is \<open>None\<close>), and so is a top that is not a directory.
  Each triple is \<open>(dirpath, dirnames, filenames)\<close>; a file name comes with the \<open>fstat\<close> of
  \<open>os.path.join(dirpath, filename)\<close>, which is what the size loop asks for.
\<close>

fun walk :: "path \<Rightarrow> node \<Rightarrow> (path \<times> string list \<times> (string \<times> fstat) list) list" where
  "walk dirpath (File s) = []"
| "walk dirpath (Dir r es) =
     (if \<not> r then []
      else (dirpath,
            concat (map (\<lambda>(name, c). case c of Dir r' es' \<Rightarrow> [name] | File s \<Rightarrow> []) es),
            concat (map (\<lambda>(name, c). case c of Dir r' es' \<Rightarrow> [] | File s \<Rightarrow> [(name, s)]) es))
           # concat (map (\<lambda>(name, c). case c of Dir r' es' \<Rightarrow> walk (dirpath @ [name]) c | File s \<Rightarrow> []) es))"


definition os_walk :: "node \<Rightarrow> path \<Rightarrow> (path \<times> string list \<times> (string \<times> fstat) list) list" where
  "os_walk tree folder_path = (case lookup tree folder_path of None \<Rightarrow> [] | Some t \<Rightarrow> walk folder_path t)"

subsection \<open>\<open>get_folder_size\<close>\<close>

text \<open>
  The two nested \<open>for\<close> loops.  Each returns the exception that left it, if any,
  together with \<open>total_size\<close> as it was then: the inner \<open>try\<close> resumes with the next file on
  an \<open>OSError\<close>, the outer \<open>try\<close> ends the walk on an \<open>OSError\<close> and the function returns
  the total reached.
\<close>

fun sum_files :: "(string \<times> fstat) list \<Rightarrow> int \<Rightarrow> exc option \<times> int" where
  "sum_files [] total_size = (None, total_size)"
| "sum_files ((filename, s) # rest) total_size =
     (if stat_exists (File s) then
        (case getsize s of
           Inr n \<Rightarrow> sum_files rest (total_size + n)
         | Inl e \<Rightarrow> if is_OSError e then sum_files rest total_size else (Some e, total_size))
      else sum_files rest total_size)"

fun sum_walk :: "(path \<times> string list \<times> (string \<times> fstat) list) list \<Rightarrow> int \<Rightarrow> exc option \<times> int" where
  "sum_walk [] total_size = (None, total_size)"
| "sum_walk ((dirpath, dirnames, filenames) # rest) total_size =
     (case sum_files filenames total_size of
        (None, t) \<Rightarrow> sum_walk rest t
      | (Some e, t) \<Rightarrow> (Some e, t))"

definition get_folder_size :: "node \<Rightarrow> path \<Rightarrow> exc + int" where
  "get_folder_size tree folder_path =
     (case sum_walk (os_walk tree folder_path) 0 of
        (None, total_size) \<Rightarrow> Inr total_size
      | (Some e, total_size) \<Rightarrow> if is_OSError e then Inr total_size else Inl e)"

subsection \<open>\<open>is_flutter_project\<close>\<close>

definition is_flutter_project :: "node \<Rightarrow> path \<Rightarrow> bool" where
  "is_flutter_project tree folder_path = path_exists tree (folder_path @ [''pubspec.yaml''])"

text \<open>\<open>os.path.basename\<close> of a path and the text of a path.\<close>

definition basename :: "path \<Rightarrow> string" where
  "basename p = (if p = [] then [] else last p)"

definition path_str :: "path \<Rightarrow> string" where
  "path_str p = (if p = [] then ''/'' else concat (map (\<lambda>c. CHR ''/'' # c) p))"

subsection \<open>The world\<close>

text \<open>
  \<^item> \<open>stdin\<close>: what the operator will type, a line or an interrupt at a time;
  \<^item> \<open>stdout\<close>: what has been printed, oldest first.  A line is a text (\<open>L\<close>), a text
    followed by an exception whose message is not modelled (\<open>LE\<close>, for \<open>{e}\<close>), or a text
    followed by a percentage whose rendering with one decimal is not modelled (\<open>LP\<close>);
  \<^item> \<open>fs\<close>: the file system;
  \<^item> \<open>tool\<close>: the external command: from the argument vector, the working directory
    and the file system to what the process did (\<open>Exited\<close> with return code, standard
    output and standard error, or a failure to start it) and the file system it left.
    What the process wrote is bytes: \<open>Text s\<close> when they decode to the text \<open>s\<close> in the
    encoding of the locale, \<open>Undecodable\<close> when they do not;
  \<^item> \<open>resolve\<close>: \<open>os.path.abspath(os.path.expanduser(s))\<close>, which depends on the home and
    the working directory of the process;
  \<^item> \<open>calls\<close>: the external commands started so far, with their working directories.
\<close>

datatype key = Line string | Interrupt

datatype captured = Text string | Undecodable

datatype proc = Exited int captured captured | Launch_failed exc

datatype line = L string | LE string exc | LP string rat

record world =
  stdin :: "key list"
  stdout :: "line list"
  fs :: node
  tool :: "string list \<Rightarrow> path \<Rightarrow> node \<Rightarrow> proc \<times> node"
  resolve :: "string \<Rightarrow> path"
  calls :: "(string list \<times> path) list"

text \<open>An effectful function takes the world and returns a value or a raised exception,
  and the world it leaves.\<close>

type_synonym 'a io = "world \<Rightarrow> (exc + 'a) \<times> world"

definition io_ret :: "'a \<Rightarrow> 'a io" where
  "io_ret x w = (Inr x, w)"

definition io_raise :: "exc \<Rightarrow> 'a io" where
  "io_raise e w = (Inl e, w)"

definition io_lift :: "exc + 'a \<Rightarrow> 'a io" where
  "io_lift r w = (r, w)"

definition io_read :: "(world \<Rightarrow> 'a) \<Rightarrow> 'a io" where
  "io_read f w = (Inr (f w), w)"

definition io_bind :: "'a io \<Rightarrow> ('a \<Rightarrow> 'b io) \<Rightarrow> 'b io" where
  "io_bind m k w = (case m w of (Inl e, w') \<Rightarrow> (Inl e, w') | (Inr x, w') \<Rightarrow> k x w')"

definition io_then :: "'a io \<Rightarrow> 'b io \<Rightarrow> 'b io" where
  "io_then m k = io_bind m (\<lambda>_. k)"

definition io_try :: "'a io \<Rightarrow> (exc \<Rightarrow> 'a io) \<Rightarrow> 'a io" where
  "io_try m handler w = (case m w of (Inl e, w') \<Rightarrow> handler e w' | (Inr x, w') \<Rightarrow> (Inr x, w'))"

text \<open>
  \<open>print\<close>, \<open>input\<close> (the prompt goes to the output) and
  \<open>subprocess.run(command, cwd=cwd, capture_output=True, text=True, check=True)\<close>.
  With \<open>text=True\<close> the captured bytes of both streams are decoded, strictly, when the
  process has ended and before its return code is looked at: bytes that do not decode
  raise \<open>UnicodeDecodeError\<close>, whatever the return code.  Otherwise a return code other
  than 0 raises \<open>CalledProcessError\<close>, and with 0 the decoded standard output is returned
  (all that \<open>clean_flutter_project\<close> reads of the result).
\<close>

definition print :: "line \<Rightarrow> unit io" where
  "print l w = (Inr (), w\<lparr>stdout := stdout w @ [l]\<rparr>)"

definition input :: "string \<Rightarrow> string io" where
  "input prompt w =
     (let w' = w\<lparr>stdout := stdout w @ [L prompt]\<rparr> in
      case stdin w of
        [] \<Rightarrow> (Inl EOFError, w')
      | Interrupt # ks \<Rightarrow> (Inl KeyboardInterrupt, w'\<lparr>stdin := ks\<rparr>)
      | Line s # ks \<Rightarrow> (Inr s, w'\<lparr>stdin := ks\<rparr>))"

definition subprocess_run :: "string list \<Rightarrow> path \<Rightarrow> string io" where
  "subprocess_run command cwd w =
     (let w' = w\<lparr>calls := calls w @ [(command, cwd)]\<rparr> in
      case tool w command cwd (fs w) of
        (Launch_failed e, t) \<Rightarrow> (Inl e, w')
      | (Exited returncode out err, t) \<Rightarrow>
          (case (out, err) of
             (Text stdout_text, Text stderr_text) \<Rightarrow>
               if returncode \<noteq> 0
               then (Inl (CalledProcessError returncode stdout_text stderr_text), w'\<lparr>fs := t\<rparr>)
               else (Inr stdout_text, w'\<lparr>fs := t\<rparr>)
           | _ \<Rightarrow> (Inl UnicodeDecodeError, w'\<lparr>fs := t\<rparr>)))"

subsection \<open>\<open>clean_flutter_project\<close>\<close>

record outcome =
  success :: bool
  size_before :: int
  size_after :: int
  size_saved :: int

definition failed_outcome :: outcome where
  "failed_outcome = \<lparr>success = False, size_before = 0, size_after = 0, size_saved = 0\<rparr>"

definition clean_flutter_project :: "path \<Rightarrow> bool \<Rightarrow> outcome io" where
  "clean_flutter_project project_path use_fvm =
     (let project_name = basename project_path;
          command_name = (if use_fvm then ''fvm flutter clean'' else ''flutter clean'')
      in io_try
        (io_then (print (L (''Cleaning Flutter project: '' @ project_name)))
        (io_then (print (L ''  Calculating folder size before cleaning...''))
        (io_bind (\<lambda>w. (get_folder_size (fs w) project_path, w)) (\<lambda>sz_before.
        (io_bind (io_lift (format_size sz_before)) (\<lambda>before_text.
        (io_then (print (L (''  Size before: '' @ before_text)))
        (let command = (if use_fvm then [''fvm'', ''flutter'', ''clean''] else [''flutter'', ''clean'']) in
        (io_then (print (L (''  Running: '' @ command_name)))
        (io_bind (subprocess_run command project_path) (\<lambda>result_stdout.
        (io_then (print (L ''  Calculating folder size after cleaning...''))
        (io_bind (\<lambda>w. (get_folder_size (fs w) project_path, w)) (\<lambda>sz_after.
        (let sz_saved = sz_before - sz_after in
        (io_bind (io_lift (format_size sz_after)) (\<lambda>after_text.
        (io_then (print (L (''  Size after: '' @ after_text)))
        (io_bind (io_lift (format_size sz_saved)) (\<lambda>saved_text.
        (io_then (print (L (''  Space saved: '' @ saved_text)))
        (io_then (if strip result_stdout \<noteq> [] then print (L (''  Flutter output: '' @ strip result_stdout))
                  else io_ret ())
        (io_then (print (L (''  Successfully cleaned: '' @ project_name)))
        (io_ret \<lparr>success = True, size_before = sz_before, size_after = sz_after,
                  size_saved = sz_saved\<rparr>))))))))))))))))))))))))
        (\<lambda>e. case e of
           CalledProcessError returncode out err \<Rightarrow>
             io_then (print (LE (''  Error cleaning '' @ project_name @ '': '') e))
            (io_then (if err \<noteq> [] then print (L (''  Error details: '' @ strip err)) else io_ret ())
            (io_ret failed_outcome))
         | FileNotFoundError \<Rightarrow>
             io_then (print (L (if use_fvm
                 then ''  '' @ [CHR 0x27] @ ''fvm'' @ [CHR 0x27] @ '' command not found. Please make sure FVM is installed and in your PATH.''
                 else ''  '' @ [CHR 0x27] @ ''flutter'' @ [CHR 0x27] @ '' command not found. Please make sure Flutter SDK is installed and in your PATH.'')))
            (io_ret failed_outcome)
         | _ \<Rightarrow> io_raise e))"

subsection \<open>\<open>ask_fvm_preference\<close>\<close>

function ask_choice :: "bool io" where
  "ask_choice w =
     (case input ''\<newline>Enter your choice (1 or 2): '' w of
        (Inl e, w') \<Rightarrow> (Inl e, w')
      | (Inr answer, w') \<Rightarrow>
          (let choice = strip answer in
           if choice = ''1'' then io_then (print (L ''Using FVM for Flutter commands'')) (io_ret True) w'
           else if choice = ''2''
             then io_then (print (L ''Using regular Flutter commands'')) (io_ret False) w'
           else ask_choice (snd (print (L ''Invalid choice. Please enter 1 or 2.'') w'))))"
  by pat_completeness auto
termination
  by (relation "measure (\<lambda>w. length (stdin w))")
    (auto simp: input_def print_def Let_def split: list.splits key.splits)

declare ask_choice.simps [simp del]

definition ask_fvm_preference :: "bool io" where
  "ask_fvm_preference =
     io_then (print (L ''Flutter Version Management''))
    (io_then (print (L (replicate 40 CHR ''-'')))
    (io_then (print (L ''Do you want to use FVM (Flutter Version Management) or regular Flutter?''))
    (io_then (print (L ''1. Use FVM (fvm flutter clean)''))
    (io_then (print (L ''2. Use regular Flutter (flutter clean)''))
     ask_choice))))"

subsection \<open>\<open>scan_and_clean_flutter_projects\<close>\<close>

text \<open>The \<open>for item in items\<close> loop of the discovery.\<close>

fun discover_loop :: "path \<Rightarrow> string list \<Rightarrow> path list \<Rightarrow> path list io" where
  "discover_loop parent_folder [] flutter_projects w = (Inr flutter_projects, w)"
| "discover_loop parent_folder (item # items) flutter_projects w =
     (let item_path = parent_folder @ [item] in
      if \<not> isdir (fs w) item_path then discover_loop parent_folder items flutter_projects w
      else if startswith item ''.'' then discover_loop parent_folder items flutter_projects w
      else if is_flutter_project (fs w) item_path
        then discover_loop parent_folder items (flutter_projects @ [item_path])
               (snd (print (L (''Found Flutter project: '' @ item)) w))
        else discover_loop parent_folder items flutter_projects w)"

definition discover_projects :: "path \<Rightarrow> path list io" where
  "discover_projects parent_folder =
     io_bind (\<lambda>w. (listdir (fs w) parent_folder, w)) (\<lambda>items.
     discover_loop parent_folder items [])"

record totals =
  successful_cleans :: int
  failed_cleans :: int
  total_size_before :: int
  total_size_after :: int
  total_size_saved :: int

definition initial_totals :: totals where
  "initial_totals = \<lparr>successful_cleans = 0, failed_cleans = 0, total_size_before = 0,
                      total_size_after = 0, total_size_saved = 0\<rparr>"

text \<open>The body of the cleaning loop after the call of \<open>clean_flutter_project\<close>.\<close>

definition accumulate :: "totals \<Rightarrow> outcome \<Rightarrow> totals" where
  "accumulate t result =
     (let t' = (if success result then t\<lparr>successful_cleans := successful_cleans t + 1\<rparr>
                else t\<lparr>failed_cleans := failed_cleans t + 1\<rparr>)
      in t'\<lparr>total_size_before := total_size_before t + size_before result,
             total_size_after := total_size_after t + size_after result,
             total_size_saved := total_size_saved t + size_saved result\<rparr>)"

text \<open>The loop \<open>for i, project_path in enumerate(flutter_projects, 1)\<close>; \<open>n\<close> is
  \<open>len(flutter_projects)\<close>.\<close>

fun process_loop :: "bool \<Rightarrow> int \<Rightarrow> int \<Rightarrow> path list \<Rightarrow> totals \<Rightarrow> totals io" where
  "process_loop use_fvm n i [] t w = (Inr t, w)"
| "process_loop use_fvm n i (project_path # rest) t w =
     (let w1 = snd (print (L (''\<newline>['' @ str_int i @ ''/'' @ str_int n @ ''] Processing project...'')) w)
      in case clean_flutter_project project_path use_fvm w1 of
           (Inl e, w2) \<Rightarrow> (Inl e, w2)
         | (Inr result, w2) \<Rightarrow> process_loop use_fvm n (i + 1) rest (accumulate t result) w2)"

text \<open>\<open>a / b\<close> on integers.  The quotient is a float in Python; here it is the exact
  rational, the rounding of the division is not represented.\<close>

definition py_truediv :: "int \<Rightarrow> int \<Rightarrow> exc + rat" where
  "py_truediv a b = (if b = 0 then Inl ZeroDivisionError else Inr (of_int a / of_int b))"

definition print_summary :: "string \<Rightarrow> int \<Rightarrow> totals \<Rightarrow> unit io" where
  "print_summary command_description n t =
     io_then (print (L (''\<newline>'' @ replicate 80 CHR ''='')))
    (io_then (print (L ''CLEANUP SUMMARY''))
    (io_then (print (L (replicate 80 CHR ''='')))
    (io_then (print (L (''Command used: '' @ command_description)))
    (io_then (print (L (''Successfully cleaned: '' @ str_int (successful_cleans t) @ '' project(s)'')))
    (io_then (if failed_cleans t > 0
              then print (L (''Failed to clean: '' @ str_int (failed_cleans t) @ '' project(s)''))
              else io_ret ())
    (io_then (print (L (''Total Flutter projects: '' @ str_int n)))
    (io_then (print (L (replicate 80 CHR ''-'')))
    (io_then (print (L ''SPACE USAGE SUMMARY''))
    (io_then (print (L (replicate 80 CHR ''-'')))
    (io_bind (io_lift (format_size (total_size_before t))) (\<lambda>before_text.
     io_then (print (L (''Total size before cleaning: '' @ before_text)))
    (io_bind (io_lift (format_size (total_size_after t))) (\<lambda>after_text.
     io_then (print (L (''Total size after cleaning:  '' @ after_text)))
    (io_bind (io_lift (format_size (total_size_saved t))) (\<lambda>saved_text.
     io_then (print (L (''Total space saved:          '' @ saved_text)))
    (io_then (if total_size_before t > 0
              then io_bind (io_lift (py_truediv (total_size_saved t) (total_size_before t)))
                     (\<lambda>q. let percentage_saved = q * 100
                          in print (LP ''Space reduction:            '' percentage_saved))
              else io_ret ())
     (print (L (replicate 80 CHR ''='')))))))))))))))))))"

text \<open>From the confirmation to the summary.\<close>

definition confirm_and_clean :: "bool \<Rightarrow> path list \<Rightarrow> unit io" where
  "confirm_and_clean use_fvm flutter_projects =
     (let n = int (length flutter_projects);
          command_description = (if use_fvm then ''fvm flutter clean'' else ''flutter clean'')
      in io_then (print (L (''\<newline>Found '' @ str_int n @ '' Flutter project(s)'')))
        (io_then (print (L (replicate 60 CHR ''-'')))
        (io_then (print (L (''Command to execute: '' @ command_description)))
        (io_bind (input (''Do you want to run '' @ [CHR 0x27] @ command_description @ [CHR 0x27]
                         @ '' on all '' @ str_int n @ '' project(s)? (y/N): '')) (\<lambda>answer.
         let response = lower (strip answer) in
         if response \<notin> set [''y'', ''yes''] then print (L ''Operation cancelled.'')
         else io_then (print (L ''\<newline>Starting cleanup process...''))
             (io_then (print (L (replicate 60 CHR ''-'')))
             (io_bind (process_loop use_fvm n 1 flutter_projects initial_totals) (\<lambda>t.
              print_summary command_description n t))))))))"

text \<open>From the entry of the parent folder on.\<close>

definition scan_parent_folder :: "bool \<Rightarrow> unit io" where
  "scan_parent_folder use_fvm =
     io_bind (input ''Enter the parent folder path containing Flutter projects: '') (\<lambda>answer.
     let parent_text = strip answer in
     if parent_text = [] then print (L ''No folder path provided.'')
     else io_bind (io_read (\<lambda>w. resolve w parent_text)) (\<lambda>parent_folder.
          io_bind (io_read (\<lambda>w. path_exists (fs w) parent_folder)) (\<lambda>ex.
          if \<not> ex then print (L (''Folder does not exist: '' @ path_str parent_folder))
          else io_bind (io_read (\<lambda>w. isdir (fs w) parent_folder)) (\<lambda>d.
          if \<not> d then print (L (''Path is not a directory: '' @ path_str parent_folder))
          else io_then (print (L (''Scanning for Flutter projects in: '' @ path_str parent_folder)))
              (io_then (print (L (replicate 60 CHR ''-'')))
              (io_bind
                 (io_try (io_bind (discover_projects parent_folder) (\<lambda>ps. io_ret (Some ps)))
                    (\<lambda>e. if e = PermissionError
                         then io_then (print (L (''Permission denied accessing: '' @ path_str parent_folder)))
                                (io_ret None)
                         else io_raise e))
                 (\<lambda>found. case found of
                      None \<Rightarrow> io_ret ()
                    | Some flutter_projects \<Rightarrow>
                        if flutter_projects = []
                        then print (L ''No Flutter projects found in the specified folder.'')
                        else confirm_and_clean use_fvm flutter_projects)))))))"

text \<open>The body of the \<open>try\<close> statement of \<open>scan_and_clean_flutter_projects\<close>, and the
  function with its two handlers.\<close>

definition scan_body :: "unit io" where
  "scan_body =
     io_bind ask_fvm_preference (\<lambda>use_fvm.
     io_then (print (L [])) (scan_parent_folder use_fvm))"

definition scan_and_clean_flutter_projects :: "unit io" where
  "scan_and_clean_flutter_projects =
     io_try scan_body
       (\<lambda>e. if e = KeyboardInterrupt then print (L ''\<newline>\<newline>Operation cancelled by user.'')
            else if is_Exception e then print (LE ''An unexpected error occurred: '' e)
            else io_raise e)"

subsection \<open>What \<open>get_folder_size\<close> is to return\<close>

text \<open>
  Three definitions that follow the words of the specification, to compare
  \<open>get_folder_size\<close> with.  \<open>total_file_size\<close> is the sum of the sizes of all regular
  files under a tree.  \<open>all_accessible\<close> says that every directory of the tree can be
  listed and every file has a size.  \<open>best_effort_size\<close> is the best-effort total: a
  directory that cannot be listed counts 0, and so does a file without a size.
\<close>

definition file_size :: "fstat \<Rightarrow> int" where
  "file_size s = (case s of Sized n \<Rightarrow> int n | _ \<Rightarrow> 0)"

fun best_effort_size :: "node \<Rightarrow> int" where
  "best_effort_size (File s) = 0"
| "best_effort_size (Dir r es) =
     (if r then sum_list (map (\<lambda>(name, c). case c of File s \<Rightarrow> file_size s
                                              | Dir r' es' \<Rightarrow> best_effort_size c) es)
      else 0)"

fun total_file_size :: "node \<Rightarrow> int" where
  "total_file_size (File s) = file_size s"
| "total_file_size (Dir r es) = sum_list (map (\<lambda>(name, c). total_file_size c) es)"

fun all_accessible :: "node \<Rightarrow> bool" where
  "all_accessible (File s) = (case s of Sized n \<Rightarrow> True | _ \<Rightarrow> False)"
| "all_accessible (Dir r es) = (r \<and> list_all (\<lambda>(name, c). all_accessible c) es)"

text \<open>A project directory of 100 bytes, for the examples.\<close>

definition example_tree :: node where
  "example_tree =
     Dir True [(''proj'', Dir True
       [(''pubspec.yaml'', File (Sized 10)),
        (''build'', Dir True [(''app.bin'', File (Sized 90)), (''cache'', Dir True [])])])]"

subsection \<open>What the discovery is to select\<close>

text \<open>
  What the specification says of the discovery: an entry of the parent is selected
  when it is a directory, its name does not begin with a dot and the project detector
  holds for it.
\<close>

definition selected :: "node \<Rightarrow> path \<Rightarrow> string \<Rightarrow> bool" where
  "selected tree parent_folder item =
     (isdir tree (parent_folder @ [item]) \<and> \<not> startswith item ''.''
      \<and> is_flutter_project tree (parent_folder @ [item]))"

text \<open>The parent of the specification's example: \<open>A\<close> has the marker, \<open>B\<close> has none
  (a marker deeper inside does not count), \<open>.hidden\<close> has one, \<open>C\<close> is a file.\<close>

definition example_parent :: node where
  "example_parent =
     Dir True [(''work'', Dir True
       [(''A'', Dir True [(''pubspec.yaml'', File (Sized 10)), (''lib'', Dir True [])]),
        (''B'', Dir True [(''sub'', Dir True [(''pubspec.yaml'', File (Sized 10))])]),
        (''.hidden'', Dir True [(''pubspec.yaml'', File (Sized 10))]),
        (''C'', File (Sized 5))])]"

definition example_world :: world where
  "example_world =
     \<lparr>stdin = [], stdout = [], fs = example_parent,
      tool = (\<lambda>command cwd t. (Exited 0 (Text []) (Text []), t)),
      resolve = (\<lambda>s. [''work'']), calls = []\<rparr>"

subsection \<open>The command and the example worlds\<close>

text \<open>The argument vector that \<open>clean_flutter_project\<close> passes to \<open>subprocess.run\<close>.\<close>

definition clean_command :: "bool \<Rightarrow> string list" where
  "clean_command use_fvm = (if use_fvm then [''fvm'', ''flutter'', ''clean''] else [''flutter'', ''clean''])"

text \<open>Worlds for the examples.  In \<open>world_ok\<close> the command removes the build directory
  of the project and ends with 0; in \<open>world_exit1\<close> it ends with 1; in \<open>world_missing\<close>
  its executable is not found; in \<open>world_undecodable\<close> it ends with 0 and what it wrote
  does not decode; in \<open>world_denied\<close> its executable may not be run.\<close>

definition cleaned_tree :: node where
  "cleaned_tree = Dir True [(''proj'', Dir True [(''pubspec.yaml'', File (Sized 10))])]"

definition world_ok :: world where
  "world_ok =
     \<lparr>stdin = [], stdout = [], fs = example_tree,
      tool = (\<lambda>command cwd t. (Exited 0 (Text ''Deleting build...'') (Text []), cleaned_tree)),
      resolve = (\<lambda>s. []), calls = []\<rparr>"




definition world_denied :: world where
  "world_denied = world_ok\<lparr>tool := (\<lambda>command cwd t. (Launch_failed PermissionError, t))\<rparr>"

subsection \<open>The invariant of the totals\<close>

text \<open>The two relations that the specification states of the running totals, after
  \<open>k\<close> projects.\<close>

definition totals_invariant :: "totals \<Rightarrow> int \<Rightarrow> bool" where
  "totals_invariant t k =
     (total_size_saved t = total_size_before t - total_size_after t
      \<and> successful_cleans t + failed_cleans t = k)"

text \<open>A batch of two projects: the command succeeds in \<open>proj\<close> and exits with 1 in
  \<open>other\<close>.\<close>

definition world_two :: world where
  "world_two =
     world_ok\<lparr>tool := (\<lambda>command cwd t. if cwd = [''proj'']
                          then (Exited 0 (Text ''Deleting build...'') (Text []), cleaned_tree)
                          else (Exited 1 (Text []) (Text ''No pubspec''), t))\<rparr>"

subsection \<open>Totals for the examples\<close>

definition totals_saved :: totals where
  "totals_saved = \<lparr>successful_cleans = 1, failed_cleans = 1, total_size_before = 100,
                    total_size_after = 10, total_size_saved = 90\<rparr>"

subsection \<open>The lines around the prompts\<close>

text \<open>What \<open>scan_and_clean_flutter_projects\<close> prints between the discovery and the
  reading of the confirmation, for \<open>n\<close> projects, the prompt last.\<close>

definition confirmation_lines :: "bool \<Rightarrow> int \<Rightarrow> line list" where
  "confirmation_lines use_fvm n =
     (let command_description = (if use_fvm then ''fvm flutter clean'' else ''flutter clean'')
      in [L (''\<newline>Found '' @ str_int n @ '' Flutter project(s)''),
          L (replicate 60 CHR ''-''),
          L (''Command to execute: '' @ command_description),
          L (''Do you want to run '' @ [CHR 0x27] @ command_description @ [CHR 0x27]
             @ '' on all '' @ str_int n @ '' project(s)? (y/N): '')])"

section \<open>Properties\<close>

subsection \<open>Digits\<close>

lemma digit_char_cases:
  "0 \<le> d \<Longrightarrow> d < 10 \<Longrightarrow> digit_char d \<in> set ''0123456789''"
  unfolding digit_char_def by (rule nth_mem) simp

lemma str_digits_digits:
  "0 \<le> n \<Longrightarrow> set (str_digits n) \<subseteq> set ''0123456789''"
proof (induction n rule: str_digits.induct)
  case (1 n)
  show ?case
  proof (cases "n < 10")
    case True
    with 1(2) show ?thesis using digit_char_cases [of n] by (subst str_digits.simps) simp
  next
    case False
    then have a: "0 \<le> n div 10" by simp
    have b: "0 \<le> n mod 10" "n mod 10 < 10" by simp_all
    from 1(1) [OF False a] digit_char_cases [OF b] False
    show ?thesis by (subst str_digits.simps) simp
  qed
qed

lemma str_int_no_point: "CHR ''.'' \<notin> set (str_int n)"
proof -
  have p: "CHR ''.'' \<notin> set ''0123456789''" by simp
  have "CHR ''.'' \<notin> set (str_digits m)" if "0 \<le> m" for m
    using str_digits_digits [OF that] p by blast
  then show ?thesis by (simp add: str_int_def)
qed

lemma round_half_even_nonneg: "0 \<le> x \<Longrightarrow> 0 \<le> round_half_even x"
  by (simp add: round_half_even_def Let_def)

lemma fmt_2f_shape:
  "\<exists>ip d1 d2. fmt_2f x = ip @ ''.'' @ [d1, d2] \<and> CHR ''.'' \<notin> set ip
      \<and> d1 \<in> set ''0123456789'' \<and> d2 \<in> set ''0123456789''"
proof -
  define h where "h = round_half_even (\<bar>x\<bar> * 100)"
  define ip where "ip = (if x < 0 then ''-'' else '''') @ str_digits (h div 100)"
  have h: "0 \<le> h" unfolding h_def by (rule round_half_even_nonneg) simp
  then have "0 \<le> h div 100" by simp
  from str_digits_digits [OF this] have "CHR ''.'' \<notin> set (str_digits (h div 100))" by auto
  then have 1: "CHR ''.'' \<notin> set ip" by (simp add: ip_def)
  have 2: "digit_char (h mod 100 div 10) \<in> set ''0123456789''"
    by (rule digit_char_cases) simp_all
  have 3: "digit_char (h mod 10) \<in> set ''0123456789''"
    by (rule digit_char_cases) simp_all
  have "fmt_2f x = ip @ ''.'' @ [digit_char (h mod 100 div 10), digit_char (h mod 10)]"
    by (simp add: fmt_2f_def Let_def h_def ip_def)
  with 1 2 3 show ?thesis by blast
qed

subsection \<open>Conversion of integers to floats\<close>

lemma float_mag_exact: "a < 2 ^ 53 \<Longrightarrow> float_mag a = a"
  by (simp add: float_mag_def)

lemma bitlen_big:
  assumes "2 ^ 53 \<le> a"
  shows "53 < nat (bitlen a)" and "2 ^ (nat (bitlen a) - 1) \<le> a" and "a < 2 ^ nat (bitlen a)"
proof -
  have "(0::int) < 2 ^ 53" by simp
  with assms have pos: "0 < a" by linarith
  from bitlen_bounds [OF pos] show u: "a < 2 ^ nat (bitlen a)" by simp
  have "(2::int) ^ 53 < 2 ^ nat (bitlen a)" using assms u by linarith
  then show b: "53 < nat (bitlen a)"
    by (simp only: power_strict_increasing_iff [of "2::int"] one_less_numeral_iff semiring_norm)
  then have "nat (bitlen a - 1) = nat (bitlen a) - 1" by simp
  with bitlen_bounds [OF pos] show "2 ^ (nat (bitlen a) - 1) \<le> a" by simp
qed

text \<open>Rounding never goes below a power of two that the argument has reached.\<close>

lemma float_mag_ge:
  assumes k: "53 \<le> k" and ak: "2 ^ k \<le> a"
  shows "2 ^ k \<le> float_mag a"
proof -
  define b where "b = nat (bitlen a)"
  define e where "e = b - 53"
  define q where "q = a div 2 ^ e"
  define m where "m = (if a mod 2 ^ e > 2 ^ (e - 1) \<or> (a mod 2 ^ e = 2 ^ (e - 1) \<and> odd q) then q + 1 else q)"
  have "(2::int) ^ 53 \<le> 2 ^ k" using k by (rule power_increasing) simp
  with ak have lo: "2 ^ 53 \<le> a" by linarith
  from bitlen_big [OF lo] have b: "53 < b" "2 ^ (b - 1) \<le> a" "a < 2 ^ b" by (simp_all add: b_def)
  have fm: "float_mag a = m * 2 ^ e"
    using lo by (simp add: float_mag_def Let_def m_def q_def e_def b_def)
  have be: "b - 1 = 52 + e" using b by (simp add: e_def)
  have "(2::int) ^ k < 2 ^ b" using ak b(3) by linarith
  then have "k < b"
    by (simp only: power_strict_increasing_iff [of "2::int"] one_less_numeral_iff semiring_norm)
  then have "k \<le> 52 + e" using be by linarith
  then have kle: "(2::int) ^ k \<le> 2 ^ (52 + e)" by (rule power_increasing) simp
  have "(2::int) ^ 52 * 2 ^ e \<le> a" using b(2) by (simp only: be power_add)
  then have "(2 ^ 52 * 2 ^ e) div 2 ^ e \<le> a div (2::int) ^ e"
    by (rule zdiv_mono1) simp
  then have "2 ^ 52 \<le> q" unfolding q_def
    by (simp only: nonzero_mult_div_cancel_right power_not_zero zero_neq_numeral not_False_eq_True)
  moreover have "q \<le> m" by (simp add: m_def)
  ultimately have m52: "2 ^ 52 \<le> m" by linarith
  have "(2::int) ^ 52 * 2 ^ e \<le> m * 2 ^ e"
    using m52 by (simp only: mult_right_mono zero_le_power zero_le_numeral)
  then have "(2::int) ^ (52 + e) \<le> m * 2 ^ e" by (simp only: power_add)
  with kle have "(2::int) ^ k \<le> m * 2 ^ e" by (rule order_trans)
  then show ?thesis by (simp only: fm)
qed

lemma quot_less:
  fixes K P q r a :: int
  assumes "0 < P" "a = q * P + r" "0 \<le> r" "a < K * P"
  shows "q < K"
proof -
  have "q * P < K * P" using assms by linarith
  then show ?thesis using assms(1) by (simp only: mult_less_cancel_right_pos)
qed

text \<open>With \<open>P = 2 * H\<close> the weight of the last kept bit: a magnitude below \<open>K * P - H\<close>
  is never rounded up to \<open>K * P\<close>.\<close>

lemma round_bound:
  fixes K P H q r a m :: int
  assumes H: "0 < H" and P: "P = 2 * H" and a: "a = q * P + r" and r: "0 \<le> r"
    and hi: "a < K * P - H"
    and m: "m = (if r > H \<or> (r = H \<and> odd q) then q + 1 else q)"
  shows "m * P < K * P"
proof -
  have Ppos: "0 < P" using H P by simp
  have "a < K * P" using hi H by linarith
  from quot_less [OF Ppos a r this] have qK: "q \<le> K - 1" by simp
  have mK: "m \<le> K - 1"
  proof (cases "q = K - 1")
    case True
    have "(K - 1) * P = K * P - P" by (simp add: algebra_simps)
    with a True have "r = a - (K * P - P)" by simp
    with hi P have "r < H" by linarith
    then show ?thesis using m True by simp
  next
    case False
    with qK have "q + 1 \<le> K - 1" by linarith
    then show ?thesis using m by simp
  qed
  have "m * P \<le> (K - 1) * P" using mK Ppos by (simp only: mult_right_mono less_imp_le)
  also have "\<dots> = K * P - P" by (simp add: algebra_simps)
  also have "\<dots> < K * P" using Ppos by simp
  finally show ?thesis .
qed

lemma float_mag_lt:
  assumes lo: "2 ^ 53 \<le> a" and hi: "a < 2 ^ 1024 - 2 ^ 970"
  shows "float_mag a < 2 ^ 1024"
proof -
  define b where "b = nat (bitlen a)"
  define e where "e = b - 53"
  define q where "q = a div 2 ^ e"
  define r where "r = a mod 2 ^ e"
  define m where "m = (if r > 2 ^ (e - 1) \<or> (r = 2 ^ (e - 1) \<and> odd q) then q + 1 else q)"
  from bitlen_big [OF lo] have b: "53 < b" "2 ^ (b - 1) \<le> a" "a < 2 ^ b" by (simp_all add: b_def)
  have fm: "float_mag a = m * 2 ^ e"
    using lo by (simp add: float_mag_def Let_def m_def q_def r_def e_def b_def)
  have be: "b = 53 + e" using b by (simp add: e_def)
  have p: "(0::int) < 2 ^ e" by simp
  have a_eq: "a = q * 2 ^ e + r" by (simp only: q_def r_def div_mult_mod_eq)
  have r0: "0 \<le> r" by (simp add: r_def)
  have a53: "a < 2 ^ 53 * 2 ^ e" using b(3) by (simp only: be power_add)
  have "(0::int) < 2 ^ 970" by simp
  with hi have a1024: "a < 2 ^ 1024" by linarith
  with b(2) have "(2::int) ^ (b - 1) < 2 ^ 1024" by linarith
  then have "b - 1 < 1024"
    by (simp only: power_strict_increasing_iff [of "2::int"] one_less_numeral_iff semiring_norm)
  then have e971: "e \<le> 971" using be by simp
  show ?thesis
  proof (cases "e = 971")
    case True
    have H: "(0::int) < 2 ^ 970" by simp
    have P: "(2::int) ^ e = 2 * 2 ^ 970" unfolding True by simp
    have e1: "e - 1 = 970" using True by simp
    have K: "(2::int) ^ 53 * 2 ^ e = 2 ^ 1024" unfolding True by simp
    have hi': "a < 2 ^ 53 * 2 ^ e - 2 ^ 970" using hi by (simp only: K)
    have m': "m = (if r > 2 ^ 970 \<or> (r = 2 ^ 970 \<and> odd q) then q + 1 else q)"
      by (simp only: m_def e1)
    from round_bound [OF H P a_eq r0 hi' m'] show ?thesis by (simp only: fm K)
  next
    case False
    with e971 have "53 + e \<le> 1023" by simp
    then have le: "(2::int) ^ (53 + e) \<le> 2 ^ 1023" by (rule power_increasing) simp
    from quot_less [OF p a_eq r0 a53] have "q < 2 ^ 53" .
    then have "m \<le> 2 ^ 53" by (simp add: m_def)
    then have "m * 2 ^ e \<le> 2 ^ 53 * 2 ^ e" by (simp only: mult_right_mono less_imp_le p)
    also have "\<dots> = 2 ^ (53 + e)" by (simp only: power_add)
    also note le
    also have "(2::int) ^ 1023 < 2 ^ 1024" by simp
    finally show ?thesis by (simp only: fm)
  qed
qed

lemma float_mag_pos: "0 < a \<Longrightarrow> 0 < float_mag a"
proof (cases "a < 2 ^ 53")
  case True
  assume "0 < a"
  with True show ?thesis by (simp add: float_mag_exact)
next
  case False
  then have "2 ^ 53 \<le> a" by simp
  from float_mag_ge [OF order_refl this] have "2 ^ 53 \<le> float_mag a" .
  moreover have "(0::int) < 2 ^ 53" by simp
  ultimately show ?thesis by linarith
qed

lemma float_mag_finite:
  assumes "0 \<le> a" "a < 2 ^ 1024 - 2 ^ 970"
  shows "float_mag a < 2 ^ 1024"
proof (cases "a < 2 ^ 53")
  case True
  then have "float_mag a = a" by (rule float_mag_exact)
  moreover have "(2::int) ^ 53 < 2 ^ 1024" by simp
  ultimately show ?thesis using True by linarith
next
  case False
  then have "2 ^ 53 \<le> a" by simp
  then show ?thesis using assms(2) by (rule float_mag_lt)
qed

lemma float_mag_2_53: "float_mag (2 ^ 53) = 2 ^ 53"
  by code_simp

lemma py_float_nonneg:
  assumes "0 \<le> n" "n < 2 ^ 1024 - 2 ^ 970"
  shows "py_float n = Inr (of_int (float_mag n))"
proof -
  have "float_mag n < 2 ^ 1024" using assms by (rule float_mag_finite)
  moreover have "sgn n * float_mag n = float_mag n"
  proof (cases "n = 0")
    case True
    then show ?thesis by (simp add: float_mag_def)
  next
    case False
    with assms(1) have "sgn n = 1" by simp
    then show ?thesis by simp
  qed
  ultimately show ?thesis using assms(1) by (simp add: py_float_def Let_def)
qed

lemma py_float_neg:
  assumes "n < 0" "- (2 ^ 1024 - 2 ^ 970) < n"
  shows "py_float n = Inr (of_int (- float_mag (- n)))"
proof -
  have "float_mag (- n) < 2 ^ 1024" using assms by (intro float_mag_finite) linarith+
  moreover have "sgn n = - 1" using assms(1) by simp
  moreover have "\<bar>n\<bar> = - n" using assms(1) by simp
  ultimately show ?thesis by (simp add: py_float_def Let_def)
qed

lemma py_float_overflow:
  assumes "2 ^ 1024 \<le> \<bar>n\<bar>"
  shows "py_float n = Inl OverflowError"
proof -
  have "2 ^ 1024 \<le> float_mag \<bar>n\<bar>" using _ assms by (rule float_mag_ge) simp
  then show ?thesis by (simp add: py_float_def Let_def)
qed

subsection \<open>The unit loop\<close>

lemma convert_0: "x < 1024 \<Longrightarrow> convert x 0 = (x, 0)"
  by (subst convert.simps) simp

lemma convert_1: "1024 \<le> x \<Longrightarrow> x < 1024 ^ 2 \<Longrightarrow> convert x 0 = (x / 1024, 1)"
  apply (subst convert.simps)
  apply (subst convert.simps)
  apply (simp add: size_units_def)
  done

lemma convert_2: "1024 ^ 2 \<le> x \<Longrightarrow> x < 1024 ^ 3 \<Longrightarrow> convert x 0 = (x / 1024 ^ 2, 2)"
  apply (subst convert.simps)
  apply (subst convert.simps)
  apply (subst convert.simps)
  apply (simp add: size_units_def)
  done

lemma convert_3: "1024 ^ 3 \<le> x \<Longrightarrow> x < 1024 ^ 4 \<Longrightarrow> convert x 0 = (x / 1024 ^ 3, 3)"
  apply (subst convert.simps)
  apply (subst convert.simps)
  apply (subst convert.simps)
  apply (subst convert.simps)
  apply (simp add: size_units_def)
  done

lemma convert_4: "1024 ^ 4 \<le> x \<Longrightarrow> convert x 0 = (x / 1024 ^ 4, 4)"
  apply (subst convert.simps)
  apply (subst convert.simps)
  apply (subst convert.simps)
  apply (subst convert.simps)
  apply (subst convert.simps)
  apply (simp add: size_units_def)
  done

lemma py_int_of_int: "py_int (of_int i) = i"
  by (simp add: py_int_def)

subsection \<open>\<open>format_size\<close> on positive and on negative sizes\<close>

lemma format_size_unit:
  assumes "0 < n" "n < 2 ^ 1024 - 2 ^ 970"
  shows "format_size n = Inr
         (if n < 1024 then str_int n @ '' B''
          else if n < 1024 ^ 2 then fmt_2f (of_int (float_mag n) / 1024) @ '' KB''
          else if n < 1024 ^ 3 then fmt_2f (of_int (float_mag n) / 1024 ^ 2) @ '' MB''
          else if n < 1024 ^ 4 then fmt_2f (of_int (float_mag n) / 1024 ^ 3) @ '' GB''
          else fmt_2f (of_int (float_mag n) / 1024 ^ 4) @ '' TB'')"
proof -
  have pf: "py_float n = Inr (of_int (float_mag n))"
    using assms by (intro py_float_nonneg) simp_all
  have n0: "n \<noteq> 0" using assms by simp
  consider (b) "n < 1024" | (kb) "1024 \<le> n" "n < 1024 ^ 2" | (mb) "1024 ^ 2 \<le> n" "n < 1024 ^ 3"
    | (gb) "1024 ^ 3 \<le> n" "n < 1024 ^ 4" | (tb) "1024 ^ 4 \<le> n"
    by linarith
  then show ?thesis
  proof cases
    case b
    then have fm: "float_mag n = n" by (simp add: float_mag_exact)
    have "convert (of_int n) 0 = (of_int n, 0)" using b by (intro convert_0) simp
    then show ?thesis using b n0
      by (simp add: format_size_def pf fm py_int_of_int size_units_def)
  next
    case kb
    then have fm: "float_mag n = n" by (simp add: float_mag_exact)
    have "convert (of_int n) 0 = (of_int n / 1024, 1)" using kb by (intro convert_1) simp_all
    then show ?thesis using kb n0
      by (simp add: format_size_def pf fm size_units_def)
  next
    case mb
    then have fm: "float_mag n = n" by (simp add: float_mag_exact)
    have "convert (of_int n) 0 = (of_int n / 1024 ^ 2, 2)" using mb by (intro convert_2) simp_all
    then show ?thesis using mb n0
      by (simp add: format_size_def pf fm size_units_def)
  next
    case gb
    then have fm: "float_mag n = n" by (simp add: float_mag_exact)
    have "convert (of_int n) 0 = (of_int n / 1024 ^ 3, 3)" using gb by (intro convert_3) simp_all
    then show ?thesis using gb n0
      by (simp add: format_size_def pf fm size_units_def)
  next
    case tb
    have "1024 ^ 4 \<le> float_mag n"
    proof (cases "n < 2 ^ 53")
      case True
      then show ?thesis using tb by (simp add: float_mag_exact)
    next
      case False
      then have "2 ^ 53 \<le> n" by simp
      from float_mag_ge [OF order_refl this] show ?thesis by simp
    qed
    then have "(1024::rat) ^ 4 \<le> of_int (float_mag n)" by simp
    then have "convert (of_int (float_mag n)) 0 = (of_int (float_mag n) / 1024 ^ 4, 4)"
      by (rule convert_4)
    then show ?thesis using tb n0
      by (simp add: format_size_def pf size_units_def)
  qed
qed

lemma format_size_negative:
  assumes "n < 0" "- (2 ^ 1024 - 2 ^ 970) < n"
  shows "format_size n = Inr (str_int (- float_mag (- n)) @ '' B'')"
proof -
  have pf: "py_float n = Inr (of_int (- float_mag (- n)))" using assms by (rule py_float_neg)
  have "0 < float_mag (- n)" using assms(1) by (intro float_mag_pos) simp
  then have "(of_int (- float_mag (- n)) :: rat) < 1024" by simp
  then have "convert (of_int (- float_mag (- n))) 0 = (of_int (- float_mag (- n)), 0)"
    by (rule convert_0)
  then show ?thesis using assms(1)
    by (simp add: format_size_def pf py_int_of_int size_units_def del: of_int_minus)
qed

lemma format_size_negative_exact:
  assumes "n < 0" "- (2 ^ 53) \<le> n"
  shows "format_size n = Inr (str_int n @ '' B'')"
proof -
  have "float_mag (- n) = - n"
  proof (cases "n = - (2 ^ 53)")
    case True
    then show ?thesis by (simp only: minus_minus float_mag_2_53)
  next
    case False
    with assms(2) have "- n < 2 ^ 53" by simp
    then show ?thesis by (rule float_mag_exact)
  qed
  moreover have "- (2 ^ 1024 - 2 ^ 970) < n" using assms(2) by simp
  ultimately show ?thesis using format_size_negative [OF assms(1)] by simp
qed

lemma str_digits_0: "str_digits 0 = ''0''"
  by (subst str_digits.simps) (simp add: digit_char_def)

subsection \<open>Claims about \<open>format_size\<close>\<close>

text \<open>
  Claim C4, as amended.  For every non-negative integer \<open>n\<close> below \<open>2 ^ 1024 - 2 ^ 970\<close>
  (the integers that \<open>float\<close> accepts) \<open>format_size n\<close> returns a text
  \<open>value unit\<close>: below 1024 the integer itself and the unit B, with no decimal point;
  otherwise the float of \<open>n\<close> divided by 1024 once per unit step, at most four times
  (the unit stays TB from \<open>1024 ^ 4\<close> on, however large \<open>n\<close> is), written with exactly two
  fraction digits.  Below \<open>2 ^ 53\<close> the float of \<open>n\<close> is \<open>n\<close> itself.  The five examples of
  the specification hold.
\<close>

theorem format_size_nonneg:
  assumes "0 \<le> n" and "n < 2 ^ 1024 - 2 ^ 970"
  shows "format_size n = Inr
         (if n < 1024 then str_int n @ '' B''
          else if n < 1024 ^ 2 then fmt_2f (of_int (float_mag n) / 1024) @ '' KB''
          else if n < 1024 ^ 3 then fmt_2f (of_int (float_mag n) / 1024 ^ 2) @ '' MB''
          else if n < 1024 ^ 4 then fmt_2f (of_int (float_mag n) / 1024 ^ 3) @ '' GB''
          else fmt_2f (of_int (float_mag n) / 1024 ^ 4) @ '' TB'')
     \<and> (n < 2 ^ 53 \<longrightarrow> float_mag n = n)
     \<and> CHR ''.'' \<notin> set (str_int n)
     \<and> (\<forall>x. \<exists>ip d1 d2. fmt_2f x = ip @ ''.'' @ [d1, d2] \<and> CHR ''.'' \<notin> set ip
           \<and> d1 \<in> set ''0123456789'' \<and> d2 \<in> set ''0123456789'')
     \<and> format_size 0 = Inr ''0 B''
     \<and> format_size 1023 = Inr ''1023 B''
     \<and> format_size 1024 = Inr ''1.00 KB''
     \<and> format_size 1536 = Inr ''1.50 KB''
     \<and> format_size (1024 ^ 4) = Inr ''1.00 TB''"
proof -
  have 1: "format_size n = Inr
         (if n < 1024 then str_int n @ '' B''
          else if n < 1024 ^ 2 then fmt_2f (of_int (float_mag n) / 1024) @ '' KB''
          else if n < 1024 ^ 3 then fmt_2f (of_int (float_mag n) / 1024 ^ 2) @ '' MB''
          else if n < 1024 ^ 4 then fmt_2f (of_int (float_mag n) / 1024 ^ 3) @ '' GB''
          else fmt_2f (of_int (float_mag n) / 1024 ^ 4) @ '' TB'')"
  proof (cases "n = 0")
    case True
    then show ?thesis by (simp add: format_size_def str_int_def str_digits_0)
  next
    case False
    with assms(1) have "0 < n" by simp
    then show ?thesis using assms(2) by (rule format_size_unit)
  qed
  have 2: "n < 2 ^ 53 \<longrightarrow> float_mag n = n" by (simp add: float_mag_exact)
  have 3: "\<forall>x. \<exists>ip d1 d2. fmt_2f x = ip @ ''.'' @ [d1, d2] \<and> CHR ''.'' \<notin> set ip
           \<and> d1 \<in> set ''0123456789'' \<and> d2 \<in> set ''0123456789''"
    using fmt_2f_shape by blast
  have 4: "format_size 0 = Inr ''0 B''" by (simp add: format_size_def)
  have 5: "format_size 1023 = Inr ''1023 B''" by code_simp
  have 6: "format_size 1024 = Inr ''1.00 KB''" by code_simp
  have 7: "format_size 1536 = Inr ''1.50 KB''" by code_simp
  have 8: "format_size (1024 ^ 4) = Inr ''1.00 TB''" by code_simp
  from 1 2 3 4 5 6 7 8 str_int_no_point [of n] show ?thesis by blast
qed

text \<open>The theorem at \<open>n = 1536\<close>.\<close>

theorem format_size_nonneg_witness:
  "(0::int) \<le> 1536 \<and> (1536::int) < 2 ^ 1024 - 2 ^ 970
    \<and> format_size 1536 = Inr (fmt_2f (1536 / 1024) @ '' KB'')"
proof -
  have h1: "(0::int) \<le> 1536" by simp
  have h2: "(1536::int) < 2 ^ 1024 - 2 ^ 970" by simp
  from format_size_nonneg [OF h1 h2] have "format_size 1536 = Inr (fmt_2f (1536 / 1024) @ '' KB'')"
    by simp
  with h1 h2 show ?thesis by blast
qed

text \<open>
  Claim C4 as stated (every non-negative integer) fails: \<open>float(2 ** 1024)\<close> raises
  \<open>OverflowError\<close>, and \<open>format_size\<close> does not catch it.
\<close>

theorem format_size_overflow_counterexample:
  "format_size (2 ^ 1024) = Inl OverflowError"
proof -
  have "py_float (2 ^ 1024) = Inl OverflowError" by (rule py_float_overflow) simp
  then show ?thesis by (simp add: format_size_def)
qed

text \<open>
  Claim C10, as amended.  For every negative integer \<open>n\<close> above \<open>- (2 ^ 1024 - 2 ^ 970)\<close>
  the conversion to a float succeeds, the unit loop does not run (the float is below
  1024), and \<open>format_size n\<close> is the integer value of that float followed by the unit B,
  with no decimal point.  The text shows \<open>n\<close> itself whenever \<open>- (2 ^ 53) \<le> n\<close>.
\<close>

theorem format_size_negative_int:
  assumes "n < 0" and "- (2 ^ 1024 - 2 ^ 970) < n"
  shows "py_float n = Inr (of_int (- float_mag (- n)))
     \<and> convert (of_int (- float_mag (- n))) 0 = (of_int (- float_mag (- n)), 0)
     \<and> format_size n = Inr (str_int (- float_mag (- n)) @ '' B'')
     \<and> CHR ''.'' \<notin> set (str_int (- float_mag (- n)))
     \<and> (- (2 ^ 53) \<le> n \<longrightarrow> format_size n = Inr (str_int n @ '' B''))"
proof -
  have "0 < float_mag (- n)" using assms(1) by (intro float_mag_pos) simp
  then have "(of_int (- float_mag (- n)) :: rat) < 1024" by simp
  then have "convert (of_int (- float_mag (- n))) 0 = (of_int (- float_mag (- n)), 0)"
    by (rule convert_0)
  with py_float_neg [OF assms] format_size_negative [OF assms] str_int_no_point
    format_size_negative_exact [OF assms(1)]
  show ?thesis by blast
qed

text \<open>The theorem at \<open>n = - 5\<close>.\<close>

theorem format_size_negative_int_witness:
  "(- 5 :: int) < 0 \<and> - (2 ^ 1024 - 2 ^ 970) < (- 5 :: int) \<and> format_size (- 5) = Inr ''-5 B''"
proof -
  have h1: "(- 5 :: int) < 0" by simp
  have h2: "- (2 ^ 1024 - 2 ^ 970) < (- 5 :: int)" by simp
  have s: "str_int (- 5) = ''-5''"
    by (simp add: str_int_def str_digits.simps [of 5] digit_char_def)
  from format_size_negative_int [OF h1 h2] have "format_size (- 5) = Inr (str_int (- 5) @ '' B'')"
    by (simp add: float_mag_exact)
  with h1 h2 s show ?thesis by simp
qed

text \<open>
  Claim C10 as stated (the text shows \<open>n\<close> for every negative integer \<open>n\<close>) fails at
  \<open>n = - (2 ^ 53 + 1)\<close>, which is not a float: \<open>float(n)\<close> is \<open>- 2 ^ 53\<close>, and that is the
  number printed.
\<close>

theorem format_size_negative_counterexample:
  "format_size (- 9007199254740993) = Inr ''-9007199254740992 B''
   \<and> format_size (- 9007199254740993) \<noteq> Inr (str_int (- 9007199254740993) @ '' B'')"
  by code_simp

subsection \<open>\<open>get_folder_size\<close>\<close>

lemma sum_files_eq:
  "sum_files fl acc = (None, acc + sum_list (map (\<lambda>(name, s). file_size s) fl))"
proof (induction fl arbitrary: acc)
  case Nil
  then show ?case by simp
next
  case (Cons a fl)
  obtain name s where a: "a = (name, s)" by (cases a)
  show ?case
    by (cases s) (simp_all add: a Cons stat_exists_def getsize_def file_size_def is_OSError_def)
qed

lemma sum_walk_append:
  "sum_walk xs acc = (None, t1) \<Longrightarrow> sum_walk (xs @ ys) acc = sum_walk ys t1"
proof (induction xs arbitrary: acc)
  case Nil
  then show ?case by simp
next
  case (Cons x xs)
  obtain dirpath dirnames filenames where x: "x = (dirpath, dirnames, filenames)" by (cases x)
  from Cons.prems show ?case
    by (simp add: x sum_files_eq Cons.IH)
qed

lemma sum_walk_subdirs:
  assumes "\<And>name c p t. (name, c) \<in> set es \<Longrightarrow> sum_walk (walk p c) t = (None, t + best_effort_size c)"
  shows "sum_walk (concat (map (\<lambda>(name, c). case c of Dir r' es' \<Rightarrow> walk (p @ [name]) c
                                                  | File s \<Rightarrow> []) es)) t
         = (None, t + sum_list (map (\<lambda>(name, c). case c of Dir r' es' \<Rightarrow> best_effort_size c
                                                   | File s \<Rightarrow> 0) es))"
  using assms
proof (induction es arbitrary: t)
  case Nil
  then show ?case by simp
next
  case (Cons a es)
  obtain name c where a: "a = (name, c)" by (cases a)
  have ih: "sum_walk (concat (map (\<lambda>(name, c). case c of Dir r' es' \<Rightarrow> walk (p @ [name]) c
                                                  | File s \<Rightarrow> []) es)) t'
         = (None, t' + sum_list (map (\<lambda>(name, c). case c of Dir r' es' \<Rightarrow> best_effort_size c
                                                   | File s \<Rightarrow> 0) es))" for t'
    by (rule Cons.IH) (rule Cons.prems, erule list.set_intros(2))
  show ?case
  proof (cases c)
    case (File s)
    then show ?thesis by (simp add: a ih)
  next
    case (Dir r' es')
    have 1: "sum_walk (walk (p @ [name]) c) t = (None, t + best_effort_size c)"
      by (rule Cons.prems [of name]) (simp add: a)
    show ?thesis
      using sum_walk_append [OF 1] by (simp add: a Dir ih add.assoc)
  qed
qed

lemma sum_entries_split:
  "sum_list (map (\<lambda>(name, s). file_size s)
       (concat (map (\<lambda>(name, c). case c of Dir r' es' \<Rightarrow> [] | File s \<Rightarrow> [(name, s)]) es)))
   + sum_list (map (\<lambda>(name, c). case c of Dir r' es' \<Rightarrow> best_effort_size c | File s \<Rightarrow> 0) es)
   = sum_list (map (\<lambda>(name, c). case c of File s \<Rightarrow> file_size s
                                      | Dir r' es' \<Rightarrow> best_effort_size c) es)"
proof (induction es)
  case Nil
  then show ?case by simp
next
  case (Cons a es)
  obtain name c where a: "a = (name, c)" by (cases a)
  from Cons show ?case by (cases c) (simp_all add: a)
qed

lemma sum_walk_walk: "sum_walk (walk p t) acc = (None, acc + best_effort_size t)"
proof (induction t arbitrary: p acc)
  case (File s)
  then show ?case by simp
next
  case (Dir r es)
  show ?case
  proof (cases r)
    case False
    then show ?thesis by simp
  next
    case True
    have sub: "sum_walk (walk p' c) t' = (None, t' + best_effort_size c)"
      if "(name, c) \<in> set es" for name c p' t'
      using that by (intro Dir.IH [of "(name, c)" c]) auto
    from sum_walk_subdirs [of es, OF sub]
    show ?thesis using True
      by (simp add: sum_files_eq sum_entries_split [symmetric] add.assoc)
  qed
qed


lemma best_effort_size_nonneg: "0 \<le> best_effort_size t"
proof (induction t)
  case (File s)
  then show ?case by simp
next
  case (Dir r es)
  have "0 \<le> (case x of (name, c) \<Rightarrow> case c of File s \<Rightarrow> file_size s | Dir r' es' \<Rightarrow> best_effort_size c)"
    if "x \<in> set es" for x
  proof -
    obtain name c where x: "x = (name, c)" by (cases x)
    show ?thesis
    proof (cases c)
      case (File s)
      then show ?thesis by (simp add: x file_size_def split: fstat.splits)
    next
      case c: (Dir r' es')
      have "0 \<le> best_effort_size c" using that by (intro Dir.IH [of x c]) (auto simp: x)
      then show ?thesis by (simp add: x c)
    qed
  qed
  then have "0 \<le> sum_list (map (\<lambda>(name, c). case c of File s \<Rightarrow> file_size s
                                               | Dir r' es' \<Rightarrow> best_effort_size c) es)"
    by (intro sum_list_nonneg) auto
  then show ?case by simp
qed

lemma get_folder_size_eq:
  "get_folder_size tree folder_path =
     Inr (case lookup tree folder_path of None \<Rightarrow> 0 | Some t \<Rightarrow> best_effort_size t)"
  by (simp add: get_folder_size_def os_walk_def sum_walk_walk split: option.splits)

lemma get_folder_size_nonneg: "\<exists>v. get_folder_size tree folder_path = Inr v \<and> 0 \<le> v"
  by (simp add: get_folder_size_eq best_effort_size_nonneg split: option.splits)

lemma accessible_total:
  "all_accessible t \<Longrightarrow>
     (case t of File s \<Rightarrow> file_size s | Dir r es \<Rightarrow> best_effort_size t) = total_file_size t"
proof (induction t)
  case (File s)
  then show ?case by simp
next
  case (Dir r es)
  from Dir.prems have r: r and all: "list_all (\<lambda>(name, c). all_accessible c) es" by simp_all
  have "map (\<lambda>(name, c). case c of File s \<Rightarrow> file_size s | Dir r' es' \<Rightarrow> best_effort_size c) es
           = map (\<lambda>(name, c). total_file_size c) es"
  proof (rule map_cong [OF refl])
    fix x assume that: "x \<in> set es"
    obtain name c where x: "x = (name, c)" by (cases x)
    from all that have "all_accessible c" by (auto simp: list_all_iff x)
    with that have "(case c of File s \<Rightarrow> file_size s | Dir r es \<Rightarrow> best_effort_size c) = total_file_size c"
      by (intro Dir.IH [of x c]) (auto simp: x)
    then show "(case x of (name, c) \<Rightarrow> case c of File s \<Rightarrow> file_size s | Dir r' es' \<Rightarrow> best_effort_size c)
        = (case x of (name, c) \<Rightarrow> total_file_size c)" by (simp add: x)
  qed
  then have "sum_list (map (\<lambda>(name, c). case c of File s \<Rightarrow> file_size s | Dir r' es' \<Rightarrow> best_effort_size c) es)
           = sum_list (map (\<lambda>(name, c). total_file_size c) es)"
    by (rule arg_cong)
  moreover have "best_effort_size (Dir r es)
           = sum_list (map (\<lambda>(name, c). case c of File s \<Rightarrow> file_size s | Dir r' es' \<Rightarrow> best_effort_size c) es)"
    using r by simp
  moreover have "total_file_size (Dir r es) = sum_list (map (\<lambda>(name, c). total_file_size c) es)"
    by simp
  ultimately have "best_effort_size (Dir r es) = total_file_size (Dir r es)" by (simp only:)
  then show ?case by simp
qed

lemma best_effort_skip:
  "file_size s = 0 \<Longrightarrow>
     best_effort_size (Dir True (es1 @ (name, File s) # es2)) = best_effort_size (Dir True (es1 @ es2))"
  by simp

text \<open>
  Claim C3.  Let \<open>folder_path\<close> lead to a directory.  Then \<open>get_folder_size\<close> returns the
  best-effort total of that directory, which is not negative and, when every
  directory and file under it is accessible, is the exact sum of the sizes of the
  files under it.  When the directory itself cannot be listed the result is 0.  A
  file that is gone or vanishes adds 0 and the files after it are still counted.  On
  every tree and path \<open>get_folder_size\<close> returns a number that is not negative; it raises
  nothing.
\<close>

theorem get_folder_size_sum:
  assumes "lookup tree folder_path = Some (Dir r es)"
  shows "get_folder_size tree folder_path = Inr (best_effort_size (Dir r es))
       \<and> 0 \<le> best_effort_size (Dir r es)
       \<and> (all_accessible (Dir r es) \<longrightarrow> best_effort_size (Dir r es) = total_file_size (Dir r es))
       \<and> (\<not> r \<longrightarrow> get_folder_size tree folder_path = Inr 0)
       \<and> (\<forall>es1 name s es2. s = Gone \<or> s = Vanishing \<longrightarrow>
            best_effort_size (Dir True (es1 @ (name, File s) # es2))
              = best_effort_size (Dir True (es1 @ es2)))
       \<and> (\<forall>t p. \<exists>v. get_folder_size t p = Inr v \<and> 0 \<le> v)"
proof -
  have 1: "get_folder_size tree folder_path = Inr (best_effort_size (Dir r es))"
    by (simp add: get_folder_size_eq assms)
  have 2: "all_accessible (Dir r es) \<longrightarrow> best_effort_size (Dir r es) = total_file_size (Dir r es)"
    using accessible_total [of "Dir r es"] by simp
  have 3: "\<not> r \<longrightarrow> get_folder_size tree folder_path = Inr 0"
    by (simp add: 1)
  have 4: "\<forall>es1 name s es2. s = Gone \<or> s = Vanishing \<longrightarrow>
            best_effort_size (Dir True (es1 @ (name, File s) # es2))
              = best_effort_size (Dir True (es1 @ es2))"
    by (auto simp: file_size_def)
  from 1 2 3 4 best_effort_size_nonneg get_folder_size_nonneg show ?thesis by blast
qed

text \<open>The theorem at the project directory of \<open>example_tree\<close>, where everything is
  accessible, and at a directory that cannot be listed.\<close>

theorem get_folder_size_sum_witness:
  "lookup example_tree [''proj'']
     = Some (Dir True [(''pubspec.yaml'', File (Sized 10)),
                       (''build'', Dir True [(''app.bin'', File (Sized 90)), (''cache'', Dir True [])])])
   \<and> all_accessible (Dir True [(''pubspec.yaml'', File (Sized 10)),
                       (''build'', Dir True [(''app.bin'', File (Sized 90)), (''cache'', Dir True [])])])
   \<and> get_folder_size example_tree [''proj''] = Inr 100
   \<and> lookup (Dir False [(''a'', File (Sized 5))]) [] = Some (Dir False [(''a'', File (Sized 5))])
   \<and> get_folder_size (Dir False [(''a'', File (Sized 5))]) [] = Inr 0"
proof -
  let ?T = "Dir True [(''pubspec.yaml'', File (Sized 10)),
                       (''build'', Dir True [(''app.bin'', File (Sized 90)), (''cache'', Dir True [])])]"
  have h: "lookup example_tree [''proj''] = Some ?T" by (simp add: example_tree_def)
  have a: "all_accessible ?T" by simp
  from get_folder_size_sum [OF h] a have "get_folder_size example_tree [''proj''] = Inr (total_file_size ?T)"
    by metis
  then have "get_folder_size example_tree [''proj''] = Inr 100" by (simp add: file_size_def)
  moreover have h': "lookup (Dir False [(''a'', File (Sized 5))]) [] = Some (Dir False [(''a'', File (Sized 5))])"
    by simp
  from get_folder_size_sum [OF h'] have "get_folder_size (Dir False [(''a'', File (Sized 5))]) [] = Inr 0"
    by blast
  ultimately show ?thesis using h a h' by blast
qed

subsection \<open>\<open>is_flutter_project\<close> and the discovery\<close>

lemma lookup_append:
  "lookup t (p @ q) = (case lookup t p of None \<Rightarrow> None | Some c \<Rightarrow> lookup c q)"
proof (induction p arbitrary: t)
  case Nil
  then show ?case by simp
next
  case (Cons name p)
  show ?case
  proof (cases t)
    case (File s)
    then show ?thesis by simp
  next
    case (Dir r es)
    then show ?thesis by (simp add: Cons split: option.splits)
  qed
qed

text \<open>
  Claim C6.  When \<open>dir\<close> is a directory, \<open>is_flutter_project\<close> holds exactly when the
  directory has an entry named \<open>pubspec.yaml\<close> that exists; nothing else in the
  directory matters, and a directory without such an entry is no project, whatever
  lies deeper.  The function returns a truth value and raises nothing.
\<close>

theorem is_flutter_project_marker:
  assumes "lookup tree dir = Some (Dir r es)"
  shows "(is_flutter_project tree dir \<longleftrightarrow> (\<exists>c. map_of es ''pubspec.yaml'' = Some c \<and> stat_exists c))
       \<and> (''pubspec.yaml'' \<notin> fst ` set es \<longrightarrow> \<not> is_flutter_project tree dir)"
proof -
  have "lookup tree (dir @ [''pubspec.yaml'']) = map_of es ''pubspec.yaml''"
    by (simp add: lookup_append assms split: option.splits)
  then have 1: "is_flutter_project tree dir \<longleftrightarrow> (\<exists>c. map_of es ''pubspec.yaml'' = Some c \<and> stat_exists c)"
    by (simp add: is_flutter_project_def path_exists_def split: option.splits)
  have "''pubspec.yaml'' \<notin> fst ` set es \<longrightarrow> map_of es ''pubspec.yaml'' = None"
    by (simp add: map_of_eq_None_iff)
  with 1 show ?thesis by simp
qed

text \<open>The theorem at the directories \<open>A\<close> and \<open>B\<close> of the example: \<open>A\<close> is a project, \<open>B\<close>,
  whose only marker lies one level deeper, is not.\<close>

theorem is_flutter_project_marker_witness:
  "lookup example_parent [''work'', ''A'']
     = Some (Dir True [(''pubspec.yaml'', File (Sized 10)), (''lib'', Dir True [])])
   \<and> is_flutter_project example_parent [''work'', ''A'']
   \<and> lookup example_parent [''work'', ''B'']
     = Some (Dir True [(''sub'', Dir True [(''pubspec.yaml'', File (Sized 10))])])
   \<and> \<not> is_flutter_project example_parent [''work'', ''B'']"
proof -
  have a: "lookup example_parent [''work'', ''A'']
     = Some (Dir True [(''pubspec.yaml'', File (Sized 10)), (''lib'', Dir True [])])"
    by (simp add: example_parent_def)
  have b: "lookup example_parent [''work'', ''B'']
     = Some (Dir True [(''sub'', Dir True [(''pubspec.yaml'', File (Sized 10))])])"
    by (simp add: example_parent_def)
  from is_flutter_project_marker [OF a] have "is_flutter_project example_parent [''work'', ''A'']"
    by (simp add: stat_exists_def)
  moreover from is_flutter_project_marker [OF b] have "\<not> is_flutter_project example_parent [''work'', ''B'']"
    by simp
  ultimately show ?thesis using a b by blast
qed

lemma discover_loop_eq:
  "discover_loop parent_folder items flutter_projects w =
     (Inr (flutter_projects @ map (\<lambda>item. parent_folder @ [item]) (filter (selected (fs w) parent_folder) items)),
      w\<lparr>stdout := stdout w @ map (\<lambda>item. L (''Found Flutter project: '' @ item))
                                  (filter (selected (fs w) parent_folder) items)\<rparr>)"
proof (induction items arbitrary: flutter_projects w)
  case Nil
  then show ?case by simp
next
  case (Cons item items)
  show ?case by (simp add: Cons Let_def selected_def print_def)
qed

text \<open>
  Claim C5.  When the parent can be listed, the discovery returns, in the order of the
  listing, the paths \<open>parent_folder @ [item]\<close> of exactly the listed entries that are
  selected: directories whose name does not begin with a dot and for which the project
  detector holds.  It prints one line for each and changes nothing else.  On the parent
  of the specification's example it returns \<open>A\<close> and nothing else.
\<close>

theorem discover_projects_selected:
  assumes "listdir (fs w) parent_folder = Inr items"
  shows "discover_projects parent_folder w =
           (Inr (map (\<lambda>item. parent_folder @ [item]) (filter (selected (fs w) parent_folder) items)),
            w\<lparr>stdout := stdout w @ map (\<lambda>item. L (''Found Flutter project: '' @ item))
                                        (filter (selected (fs w) parent_folder) items)\<rparr>)
       \<and> (\<forall>item. selected (fs w) parent_folder item \<longleftrightarrow>
             isdir (fs w) (parent_folder @ [item]) \<and> \<not> startswith item ''.''
             \<and> is_flutter_project (fs w) (parent_folder @ [item]))
       \<and> listdir example_parent [''work''] = Inr [''A'', ''B'', ''.hidden'', ''C'']
       \<and> fst (discover_projects [''work''] example_world) = Inr [[''work'', ''A'']]"
proof -
  have 1: "discover_projects parent_folder w =
           (Inr (map (\<lambda>item. parent_folder @ [item]) (filter (selected (fs w) parent_folder) items)),
            w\<lparr>stdout := stdout w @ map (\<lambda>item. L (''Found Flutter project: '' @ item))
                                        (filter (selected (fs w) parent_folder) items)\<rparr>)"
    by (simp add: discover_projects_def io_bind_def assms discover_loop_eq)
  have 2: "listdir example_parent [''work''] = Inr [''A'', ''B'', ''.hidden'', ''C'']"
    by (simp add: listdir_def example_parent_def)
  have 3: "fst (discover_projects [''work''] example_world) = Inr [[''work'', ''A'']]"
    by (simp add: discover_projects_def io_bind_def example_world_def listdir_def example_parent_def
        Let_def isdir_def startswith_def is_flutter_project_def path_exists_def stat_exists_def print_def)
  from 1 2 3 show ?thesis by (simp add: selected_def)
qed

text \<open>The theorem at the parent of the example.\<close>

theorem discover_projects_selected_witness:
  "listdir (fs example_world) [''work''] = Inr [''A'', ''B'', ''.hidden'', ''C'']
   \<and> fst (discover_projects [''work''] example_world) = Inr [[''work'', ''A'']]
   \<and> stdout (snd (discover_projects [''work''] example_world)) = [L ''Found Flutter project: A'']"
proof -
  have h: "listdir (fs example_world) [''work''] = Inr [''A'', ''B'', ''.hidden'', ''C'']"
    by (simp add: listdir_def example_world_def example_parent_def)
  have s: "filter (selected (fs example_world) [''work'']) [''A'', ''B'', ''.hidden'', ''C''] = [''A'']"
    by (simp add: selected_def example_world_def example_parent_def isdir_def startswith_def
        is_flutter_project_def path_exists_def stat_exists_def)
  from discover_projects_selected [OF h] have
    "discover_projects [''work''] example_world =
       (Inr (map (\<lambda>item. [''work''] @ [item]) (filter (selected (fs example_world) [''work'']) [''A'', ''B'', ''.hidden'', ''C''])),
        example_world\<lparr>stdout := stdout example_world @ map (\<lambda>item. L (''Found Flutter project: '' @ item))
             (filter (selected (fs example_world) [''work'']) [''A'', ''B'', ''.hidden'', ''C''])\<rparr>)"
    by blast
  then have "discover_projects [''work''] example_world =
       (Inr [[''work'', ''A'']], example_world\<lparr>stdout := stdout example_world @ [L ''Found Flutter project: A'']\<rparr>)"
    by (simp only: s) simp
  then show ?thesis using h by (simp add: example_world_def)
qed

subsection \<open>\<open>clean_flutter_project\<close>\<close>

lemma format_size_defined:
  assumes "\<bar>n\<bar> < 2 ^ 1024 - 2 ^ 970"
  shows "\<exists>txt. format_size n = Inr txt"
proof -
  consider "n = 0" | "0 < n" | "n < 0" by linarith
  then show ?thesis
  proof cases
    case 1
    then show ?thesis by (simp add: format_size_def)
  next
    case 2
    with assms have "n < 2 ^ 1024 - 2 ^ 970" by simp
    from format_size_unit [OF 2 this] show ?thesis by blast
  next
    case 3
    with assms have "- (2 ^ 1024 - 2 ^ 970) < n" by simp
    from format_size_negative [OF 3 this] show ?thesis by blast
  qed
qed







lemma example_sizes:
  "get_folder_size example_tree [''proj''] = Inr 100"
  "get_folder_size cleaned_tree [''proj''] = Inr 10"
  by (simp_all add: get_folder_size_eq example_tree_def cleaned_tree_def file_size_def)



subsection \<open>The cleaning loop\<close>

lemma clean_outcome_consistent:
  assumes "fst (clean_flutter_project project_path use_fvm w) = Inr r"
  shows "size_saved r = size_before r - size_after r"
proof -
  obtain b where b: "get_folder_size (fs w) project_path = Inr b"
    using get_folder_size_nonneg by blast
  have a: "\<exists>a. get_folder_size t project_path = Inr a" for t
    using get_folder_size_nonneg by blast
  from assms show ?thesis
    unfolding clean_flutter_project_def Let_def io_try_def io_then_def io_bind_def io_lift_def
      io_ret_def io_raise_def print_def subprocess_run_def
    using a
    by (auto simp: b failed_outcome_def
        split: sum.splits prod.splits proc.splits captured.splits exc.splits if_splits)
qed


lemma accumulate_invariant:
  assumes "size_saved r = size_before r - size_after r" and "totals_invariant t k"
  shows "totals_invariant (accumulate t r) (k + 1)"
  using assms by (simp add: totals_invariant_def accumulate_def Let_def)

lemma foldl_accumulate_invariant:
  assumes "\<forall>r \<in> set rs. size_saved r = size_before r - size_after r" and "totals_invariant t k"
  shows "totals_invariant (foldl accumulate t rs) (k + int (length rs))"
  using assms
proof (induction rs arbitrary: t k)
  case Nil
  then show ?case by simp
next
  case (Cons r rs)
  from Cons.prems have "totals_invariant (accumulate t r) (k + 1)"
    by (intro accumulate_invariant) simp_all
  with Cons.prems(1) have "totals_invariant (foldl accumulate (accumulate t r) rs) (k + 1 + int (length rs))"
    by (intro Cons.IH) simp_all
  then show ?case by (simp add: ac_simps)
qed

lemma process_loop_invariant:
  assumes "process_loop use_fvm n i ps t w = (Inr t', w')" and "totals_invariant t k"
  shows "totals_invariant t' (k + int (length ps))"
  using assms
proof (induction ps arbitrary: i t w k)
  case Nil
  then show ?case by simp
next
  case (Cons p ps)
  let ?w1 = "snd (print (L (''\<newline>['' @ str_int i @ ''/'' @ str_int n @ ''] Processing project...'')) w)"
  obtain x w2 where c: "clean_flutter_project p use_fvm ?w1 = (x, w2)" by (cases "clean_flutter_project p use_fvm ?w1")
  show ?case
  proof (cases x)
    case (Inl e)
    with Cons.prems(1) c show ?thesis by (simp add: Let_def)
  next
    case (Inr r)
    with c have "fst (clean_flutter_project p use_fvm ?w1) = Inr r" by simp
    then have "size_saved r = size_before r - size_after r" by (rule clean_outcome_consistent)
    then have inv: "totals_invariant (accumulate t r) (k + 1)"
      using Cons.prems(2) by (rule accumulate_invariant)
    from Cons.prems(1) c Inr
    have "process_loop use_fvm n (i + 1) ps (accumulate t r) w2 = (Inr t', w')" by (simp add: Let_def)
    from Cons.IH [OF this inv] show ?thesis by (simp add: ac_simps)
  qed
qed

lemma process_loop_append:
  assumes "process_loop use_fvm n i ps t w = (Inr tm, wm)"
  shows "process_loop use_fvm n i (ps @ qs) t w = process_loop use_fvm n (i + int (length ps)) qs tm wm"
  using assms
proof (induction ps arbitrary: i t w)
  case Nil
  then show ?case by simp
next
  case (Cons p ps)
  let ?w1 = "snd (print (L (''\<newline>['' @ str_int i @ ''/'' @ str_int n @ ''] Processing project...'')) w)"
  obtain x w2 where c: "clean_flutter_project p use_fvm ?w1 = (x, w2)" by (cases "clean_flutter_project p use_fvm ?w1")
  show ?case
  proof (cases x)
    case (Inl e)
    with Cons.prems c show ?thesis by (simp add: Let_def)
  next
    case (Inr r)
    from Cons.prems c Inr
    have "process_loop use_fvm n (i + 1) ps (accumulate t r) w2 = (Inr tm, wm)" by (simp add: Let_def)
    from Cons.IH [OF this] c Inr show ?thesis by (simp add: Let_def ac_simps)
  qed
qed

lemma initial_invariant: "totals_invariant initial_totals 0"
  by (simp add: totals_invariant_def initial_totals_def)

text \<open>
  Claim C2.  Whenever the cleaning loop has processed the projects \<open>ps\<close> and holds the
  totals \<open>t\<close>, the total saved is the total before minus the total after, and the
  successes and failures add up to the number of projects processed; the loop then
  goes on from \<open>t\<close> with the projects that remain, so this is the state at that
  iteration of any longer batch.  Every outcome that \<open>clean_flutter_project\<close> returns has
  \<open>size_saved = size_before - size_after\<close>, and accumulating any sequence of such
  outcomes keeps both relations.
\<close>

theorem batch_totals_invariant:
  assumes "process_loop use_fvm n 1 ps initial_totals w = (Inr t, w')"
  shows "total_size_saved t = total_size_before t - total_size_after t
       \<and> successful_cleans t + failed_cleans t = int (length ps)
       \<and> process_loop use_fvm n 1 (ps @ qs) initial_totals w
           = process_loop use_fvm n (1 + int (length ps)) qs t w'
       \<and> (\<forall>project_path u v r. fst (clean_flutter_project project_path u v) = Inr r
             \<longrightarrow> size_saved r = size_before r - size_after r)
       \<and> (\<forall>rs. (\<forall>r \<in> set rs. size_saved r = size_before r - size_after r) \<longrightarrow>
             total_size_saved (foldl accumulate initial_totals rs)
               = total_size_before (foldl accumulate initial_totals rs)
                 - total_size_after (foldl accumulate initial_totals rs)
             \<and> successful_cleans (foldl accumulate initial_totals rs)
                 + failed_cleans (foldl accumulate initial_totals rs) = int (length rs))"
proof -
  from process_loop_invariant [OF assms initial_invariant]
  have 1: "total_size_saved t = total_size_before t - total_size_after t
       \<and> successful_cleans t + failed_cleans t = int (length ps)"
    by (simp add: totals_invariant_def)
  have 2: "process_loop use_fvm n 1 (ps @ qs) initial_totals w
           = process_loop use_fvm n (1 + int (length ps)) qs t w'"
    using assms by (rule process_loop_append)
  have 3: "\<forall>project_path u v r. fst (clean_flutter_project project_path u v) = Inr r
             \<longrightarrow> size_saved r = size_before r - size_after r"
    using clean_outcome_consistent by blast
  have 4: "\<forall>rs. (\<forall>r \<in> set rs. size_saved r = size_before r - size_after r) \<longrightarrow>
             total_size_saved (foldl accumulate initial_totals rs)
               = total_size_before (foldl accumulate initial_totals rs)
                 - total_size_after (foldl accumulate initial_totals rs)
             \<and> successful_cleans (foldl accumulate initial_totals rs)
                 + failed_cleans (foldl accumulate initial_totals rs) = int (length rs)"
    using foldl_accumulate_invariant [OF _ initial_invariant] by (simp add: totals_invariant_def)
  from 1 2 3 4 show ?thesis by blast
qed

lemma format_examples:
  "format_size 100 = Inr ''100 B''" "format_size 10 = Inr ''10 B''" "format_size 90 = Inr ''90 B''"
  by code_simp+

lemma process_two:
  "fst (process_loop True 2 1 [[''proj''], [''other'']] initial_totals world_two)
     = Inr \<lparr>successful_cleans = 1, failed_cleans = 1, total_size_before = 100,
            total_size_after = 10, total_size_saved = 90\<rparr>"
proof -
  have o: "get_folder_size cleaned_tree [''other''] = Inr 0"
    by (simp add: get_folder_size_eq cleaned_tree_def)
  have z: "format_size 0 = Inr ''0 B''" by (simp add: format_size_def)
  show ?thesis
    by (simp add: Let_def clean_flutter_project_def io_try_def io_then_def io_bind_def io_lift_def
        io_ret_def io_raise_def print_def subprocess_run_def world_two_def world_ok_def
        example_sizes format_examples o z initial_totals_def accumulate_def failed_outcome_def)
qed

text \<open>The theorem on the batch of two projects of \<open>world_two\<close>: one success that saves
  90 bytes and one failure.\<close>

theorem batch_totals_invariant_witness:
  "fst (process_loop True 2 1 [[''proj''], [''other'']] initial_totals world_two)
     = Inr \<lparr>successful_cleans = 1, failed_cleans = 1, total_size_before = 100,
            total_size_after = 10, total_size_saved = 90\<rparr>
   \<and> (90::int) = 100 - 10 \<and> (1::int) + 1 = int (length [[''proj''], [''other'']])"
proof -
  let ?t = "\<lparr>successful_cleans = 1, failed_cleans = 1, total_size_before = 100,
            total_size_after = 10, total_size_saved = 90\<rparr>"
  let ?run = "process_loop True 2 1 [[''proj''], [''other'']] initial_totals world_two"
  have h: "?run = (Inr ?t, snd ?run)"
    using process_two by (simp add: prod_eq_iff)
  from batch_totals_invariant [OF h]
  have "total_size_saved ?t = total_size_before ?t - total_size_after ?t
       \<and> successful_cleans ?t + failed_cleans ?t = int (length [[''proj''], [''other'']])"
    by blast
  with process_two show ?thesis by simp
qed

subsection \<open>The summary\<close>

lemma print_summary_no_zero_division:
  "fst (print_summary command_description n t w) \<noteq> Inl ZeroDivisionError"
proof -
  have f: "format_size k \<noteq> Inl ZeroDivisionError" for k
    by (auto simp: format_size_def py_float_def Let_def split: sum.splits prod.splits if_splits)
  have d: "0 < b \<Longrightarrow> py_truediv a b \<noteq> Inl ZeroDivisionError" for a b
    by (simp add: py_truediv_def)
  show ?thesis
    unfolding print_summary_def io_then_def io_bind_def io_lift_def io_ret_def print_def Let_def
    using f [of "total_size_before t"] f [of "total_size_after t"] f [of "total_size_saved t"]
      d [of "total_size_before t" "total_size_saved t"]
    by (auto split: sum.splits prod.splits if_splits)
qed

lemma print_summary_lines:
  assumes "format_size (total_size_before t) = Inr tb" "format_size (total_size_after t) = Inr ta"
    "format_size (total_size_saved t) = Inr ts"
  shows "print_summary command_description n t w =
     (Inr (), w\<lparr>stdout := stdout w @
        [L (''\<newline>'' @ replicate 80 CHR ''=''), L ''CLEANUP SUMMARY'', L (replicate 80 CHR ''=''),
         L (''Command used: '' @ command_description),
         L (''Successfully cleaned: '' @ str_int (successful_cleans t) @ '' project(s)'')]
        @ (if failed_cleans t > 0
           then [L (''Failed to clean: '' @ str_int (failed_cleans t) @ '' project(s)'')] else [])
        @ [L (''Total Flutter projects: '' @ str_int n), L (replicate 80 CHR ''-''),
           L ''SPACE USAGE SUMMARY'', L (replicate 80 CHR ''-''),
           L (''Total size before cleaning: '' @ tb),
           L (''Total size after cleaning:  '' @ ta),
           L (''Total space saved:          '' @ ts)]
        @ (if total_size_before t > 0
           then [LP ''Space reduction:            ''
                   (of_int (total_size_saved t) / of_int (total_size_before t) * 100)]
           else [])
        @ [L (replicate 80 CHR ''='')]\<rparr>)"
  by (simp add: print_summary_def io_then_def io_bind_def io_lift_def io_ret_def print_def Let_def
      assms py_truediv_def)


text \<open>
  Claim C8.  Let the three totals be small enough to be printed.  Then the summary
  completes, and what it prints contains the percentage line, with the value
  \<open>100 * total_size_saved / total_size_before\<close>, when \<open>total_size_before\<close> is positive, and
  no percentage line otherwise.  Whatever the totals, the summary never raises
  \<open>ZeroDivisionError\<close>: the division is only reached with a positive divisor.
\<close>

theorem summary_percentage:
  assumes "\<bar>total_size_before t\<bar> < 2 ^ 1024 - 2 ^ 970"
    and "\<bar>total_size_after t\<bar> < 2 ^ 1024 - 2 ^ 970"
    and "\<bar>total_size_saved t\<bar> < 2 ^ 1024 - 2 ^ 970"
  shows "\<exists>ls. print_summary command_description n t w = (Inr (), w\<lparr>stdout := stdout w @ ls\<rparr>)
           \<and> (0 < total_size_before t \<longrightarrow>
                 LP ''Space reduction:            ''
                    (100 * of_int (total_size_saved t) / of_int (total_size_before t)) \<in> set ls)
           \<and> ((\<exists>s q. LP s q \<in> set ls) \<longrightarrow> 0 < total_size_before t)
           \<and> (total_size_before t = 0 \<longrightarrow> (\<forall>s q. LP s q \<notin> set ls))
           \<and> (\<forall>t' w'. fst (print_summary command_description n t' w') \<noteq> Inl ZeroDivisionError)"
proof -
  from format_size_defined [OF assms(1)] obtain tb where tb: "format_size (total_size_before t) = Inr tb" ..
  from format_size_defined [OF assms(2)] obtain ta where ta: "format_size (total_size_after t) = Inr ta" ..
  from format_size_defined [OF assms(3)] obtain ts where ts: "format_size (total_size_saved t) = Inr ts" ..
  note f = tb ta ts
  let ?ls = "[L (''\<newline>'' @ replicate 80 CHR ''=''), L ''CLEANUP SUMMARY'', L (replicate 80 CHR ''=''),
         L (''Command used: '' @ command_description),
         L (''Successfully cleaned: '' @ str_int (successful_cleans t) @ '' project(s)'')]
        @ (if failed_cleans t > 0
           then [L (''Failed to clean: '' @ str_int (failed_cleans t) @ '' project(s)'')] else [])
        @ [L (''Total Flutter projects: '' @ str_int n), L (replicate 80 CHR ''-''),
           L ''SPACE USAGE SUMMARY'', L (replicate 80 CHR ''-''),
           L (''Total size before cleaning: '' @ tb),
           L (''Total size after cleaning:  '' @ ta),
           L (''Total space saved:          '' @ ts)]
        @ (if total_size_before t > 0
           then [LP ''Space reduction:            ''
                   (of_int (total_size_saved t) / of_int (total_size_before t) * 100)]
           else [])
        @ [L (replicate 80 CHR ''='')]"
  have 1: "print_summary command_description n t w = (Inr (), w\<lparr>stdout := stdout w @ ?ls\<rparr>)"
    using print_summary_lines [OF f] by simp
  have 2: "0 < total_size_before t \<longrightarrow>
                 LP ''Space reduction:            ''
                    (100 * of_int (total_size_saved t) / of_int (total_size_before t)) \<in> set ?ls"
    by (simp add: mult.commute)
  have 3: "(\<exists>s q. LP s q \<in> set ?ls) \<longrightarrow> 0 < total_size_before t"
    by simp
  have 4: "total_size_before t = 0 \<longrightarrow> (\<forall>s q. LP s q \<notin> set ?ls)"
    by simp
  have 5: "\<forall>t' w'. fst (print_summary command_description n t' w') \<noteq> Inl ZeroDivisionError"
    using print_summary_no_zero_division by blast
  from 1 2 3 4 5 show ?thesis by blast
qed

text \<open>The theorem on the totals of the batch of two: 90 of 100 bytes saved, 90 percent.\<close>

theorem summary_percentage_witness:
  "\<bar>total_size_before totals_saved\<bar> < 2 ^ 1024 - 2 ^ 970
   \<and> \<bar>total_size_after totals_saved\<bar> < 2 ^ 1024 - 2 ^ 970
   \<and> \<bar>total_size_saved totals_saved\<bar> < 2 ^ 1024 - 2 ^ 970
   \<and> 0 < total_size_before totals_saved
   \<and> fst (print_summary ''fvm flutter clean'' 2 totals_saved world_ok) = Inr ()
   \<and> LP ''Space reduction:            '' 90
        \<in> set (stdout (snd (print_summary ''fvm flutter clean'' 2 totals_saved world_ok)))"
proof -
  have h: "\<bar>total_size_before totals_saved\<bar> < 2 ^ 1024 - 2 ^ 970"
    "\<bar>total_size_after totals_saved\<bar> < 2 ^ 1024 - 2 ^ 970"
    "\<bar>total_size_saved totals_saved\<bar> < 2 ^ 1024 - 2 ^ 970"
    by (simp_all add: totals_saved_def)
  have p: "0 < total_size_before totals_saved" by (simp add: totals_saved_def)
  from summary_percentage [OF h, of "''fvm flutter clean''" 2 world_ok] p
  obtain ls where ls: "print_summary ''fvm flutter clean'' 2 totals_saved world_ok
        = (Inr (), world_ok\<lparr>stdout := stdout world_ok @ ls\<rparr>)"
    and "LP ''Space reduction:            ''
           (100 * of_int (total_size_saved totals_saved) / of_int (total_size_before totals_saved)) \<in> set ls"
    by blast
  then have "LP ''Space reduction:            '' 90 \<in> set ls" by (simp add: totals_saved_def)
  with ls h p show ?thesis by simp
qed

subsection \<open>The confirmation and the other prompts\<close>

lemma clean_calls:
  assumes "clean_flutter_project project_path use_fvm w = (Inr r, w')"
  shows "calls w' = calls w @ [(clean_command use_fvm, project_path)]"
proof -
  obtain b where b: "get_folder_size (fs w) project_path = Inr b"
    using get_folder_size_nonneg by blast
  have a: "\<exists>a. get_folder_size t project_path = Inr a" for t
    using get_folder_size_nonneg by blast
  have f: "format_size k = Inl e \<Longrightarrow> e = OverflowError" for k e
    by (auto simp: format_size_def py_float_def Let_def split: sum.splits prod.splits if_splits)
  from assms show ?thesis
    unfolding clean_flutter_project_def Let_def io_try_def io_then_def io_bind_def io_lift_def
      io_ret_def io_raise_def print_def subprocess_run_def clean_command_def
    using a
    by (auto simp: b dest!: f
        split: sum.splits prod.splits proc.splits captured.splits exc.splits if_splits)
qed

lemma clean_calls_any:
  assumes "clean_flutter_project project_path use_fvm w = (x, w')"
  shows "calls w' = calls w \<or> calls w' = calls w @ [(clean_command use_fvm, project_path)]"
proof -
  obtain b where b: "get_folder_size (fs w) project_path = Inr b"
    using get_folder_size_nonneg by blast
  have a: "\<exists>a. get_folder_size t project_path = Inr a" for t
    using get_folder_size_nonneg by blast
  from assms show ?thesis
    unfolding clean_flutter_project_def Let_def io_try_def io_then_def io_bind_def io_lift_def
      io_ret_def io_raise_def print_def subprocess_run_def clean_command_def
    using a
    by (auto simp: b
        split: sum.splits prod.splits proc.splits captured.splits exc.splits if_splits)
qed


lemma process_loop_calls:
  assumes "process_loop use_fvm n i ps t w = (Inr t', w')"
  shows "calls w' = calls w @ map (\<lambda>p. (clean_command use_fvm, p)) ps"
  using assms
proof (induction ps arbitrary: i t w)
  case Nil
  then show ?case by simp
next
  case (Cons p ps)
  let ?w1 = "snd (print (L (''\<newline>['' @ str_int i @ ''/'' @ str_int n @ ''] Processing project...'')) w)"
  obtain x w2 where c: "clean_flutter_project p use_fvm ?w1 = (x, w2)" by (cases "clean_flutter_project p use_fvm ?w1")
  show ?case
  proof (cases x)
    case (Inl e)
    with Cons.prems c show ?thesis by (simp add: Let_def)
  next
    case (Inr r)
    with c have "calls w2 = calls ?w1 @ [(clean_command use_fvm, p)]" by (intro clean_calls) simp
    then have w2: "calls w2 = calls w @ [(clean_command use_fvm, p)]" by (simp add: print_def)
    from Cons.prems c Inr
    have "process_loop use_fvm n (i + 1) ps (accumulate t r) w2 = (Inr t', w')" by (simp add: Let_def)
    from Cons.IH [OF this] w2 show ?thesis by simp
  qed
qed

lemma confirm_cancel:
  assumes "stdin w = Line answer # ks" and "lower (strip answer) \<notin> set [''y'', ''yes'']"
  shows "confirm_and_clean use_fvm flutter_projects w =
           (Inr (), w\<lparr>stdin := ks,
                     stdout := stdout w @ confirmation_lines use_fvm (int (length flutter_projects))
                               @ [L ''Operation cancelled.'']\<rparr>)"
  using assms
  by (simp add: confirm_and_clean_def confirmation_lines_def Let_def io_then_def io_bind_def
      print_def input_def)

lemma confirm_proceed:
  assumes "stdin w = Line answer # ks" and "lower (strip answer) \<in> set [''y'', ''yes'']"
  shows "confirm_and_clean use_fvm flutter_projects w =
           io_bind (process_loop use_fvm (int (length flutter_projects)) 1 flutter_projects initial_totals)
             (print_summary (if use_fvm then ''fvm flutter clean'' else ''flutter clean'')
                (int (length flutter_projects)))
             (w\<lparr>stdin := ks,
                stdout := stdout w @ confirmation_lines use_fvm (int (length flutter_projects))
                          @ [L ''\<newline>Starting cleanup process...'', L (replicate 60 CHR ''-'')]\<rparr>)"
proof -
  from assms(2) consider "lower (strip answer) = ''y''" | "lower (strip answer) = ''yes''" by auto
  then show ?thesis
  proof cases
    case 1
    then show ?thesis
      by (simp add: confirm_and_clean_def confirmation_lines_def Let_def io_then_def io_bind_def
          print_def input_def assms(1))
  next
    case 2
    then show ?thesis
      by (simp add: confirm_and_clean_def confirmation_lines_def Let_def io_then_def io_bind_def
          print_def input_def assms(1))
  qed
qed


lemma process_loop_calls_prefix:
  assumes "process_loop use_fvm n i ps t w = (x, w')"
  shows "\<exists>k \<le> length ps. calls w' = calls w @ map (\<lambda>p. (clean_command use_fvm, p)) (take k ps)"
  using assms
proof (induction ps arbitrary: i t w)
  case Nil
  then show ?case by simp
next
  case (Cons p ps)
  let ?w1 = "snd (print (L (''\<newline>['' @ str_int i @ ''/'' @ str_int n @ ''] Processing project...'')) w)"
  obtain y w2 where c: "clean_flutter_project p use_fvm ?w1 = (y, w2)" by (cases "clean_flutter_project p use_fvm ?w1")
  have w1: "calls ?w1 = calls w" by (simp add: print_def)
  show ?case
  proof (cases y)
    case (Inl e)
    with Cons.prems c have w': "w' = w2" by (simp add: Let_def)
    from clean_calls_any [OF c] w1
    consider "calls w2 = calls w" | "calls w2 = calls w @ [(clean_command use_fvm, p)]" by auto
    then show ?thesis
    proof cases
      case 1
      then have "calls w' = calls w @ map (\<lambda>p. (clean_command use_fvm, p)) (take 0 (p # ps))"
        by (simp add: w')
      then show ?thesis by blast
    next
      case 2
      then have "calls w' = calls w @ map (\<lambda>p. (clean_command use_fvm, p)) (take 1 (p # ps))"
        by (simp add: w')
      moreover have "1 \<le> length (p # ps)" by simp
      ultimately show ?thesis by blast
    qed
  next
    case (Inr r)
    with c have "calls w2 = calls ?w1 @ [(clean_command use_fvm, p)]" by (intro clean_calls) simp
    then have w2: "calls w2 = calls w @ [(clean_command use_fvm, p)]" by (simp only: w1)
    from Cons.prems c Inr
    have "process_loop use_fvm n (i + 1) ps (accumulate t r) w2 = (x, w')" by (simp add: Let_def)
    from Cons.IH [OF this] obtain k where k: "k \<le> length ps"
      "calls w' = calls w2 @ map (\<lambda>p. (clean_command use_fvm, p)) (take k ps)" by blast
    then have "calls w' = calls w @ map (\<lambda>p. (clean_command use_fvm, p)) (take (Suc k) (p # ps))"
      by (simp add: w2)
    moreover have "Suc k \<le> length (p # ps)" using k(1) by simp
    ultimately show ?thesis by blast
  qed
qed


lemma ask_choice_again:
  assumes "stdin w = Line answer # ks" and "strip answer \<noteq> ''1''" and "strip answer \<noteq> ''2''"
  shows "ask_choice w =
           ask_choice (w\<lparr>stdin := ks,
                         stdout := stdout w @ [L ''\<newline>Enter your choice (1 or 2): '',
                                               L ''Invalid choice. Please enter 1 or 2.'']\<rparr>)"
  using assms
  by (subst ask_choice.simps [of w]) (simp add: input_def Let_def print_def)

lemma ask_choice_valid:
  assumes "stdin w = Line answer # ks"
  shows "strip answer = ''1'' \<Longrightarrow>
           ask_choice w = (Inr True, w\<lparr>stdin := ks,
                              stdout := stdout w @ [L ''\<newline>Enter your choice (1 or 2): '',
                                                    L ''Using FVM for Flutter commands'']\<rparr>)"
    and "strip answer = ''2'' \<Longrightarrow>
           ask_choice w = (Inr False, w\<lparr>stdin := ks,
                              stdout := stdout w @ [L ''\<newline>Enter your choice (1 or 2): '',
                                                    L ''Using regular Flutter commands'']\<rparr>)"
  using assms
  by (subst ask_choice.simps [of w], simp add: input_def Let_def print_def io_then_def io_bind_def io_ret_def)+

lemma path_entry_empty:
  assumes "stdin w = Line answer # ks" and "strip answer = []"
  shows "scan_parent_folder use_fvm w =
           (Inr (), w\<lparr>stdin := ks,
                     stdout := stdout w @ [L ''Enter the parent folder path containing Flutter projects: '',
                                           L ''No folder path provided.'']\<rparr>)"
  using assms
  by (simp add: scan_parent_folder_def io_bind_def input_def Let_def print_def)

lemma path_entry_missing:
  assumes "stdin w = Line answer # ks" and "strip answer \<noteq> []"
    and "\<not> path_exists (fs w) (resolve w (strip answer))"
  shows "scan_parent_folder use_fvm w =
           (Inr (), w\<lparr>stdin := ks,
                     stdout := stdout w @ [L ''Enter the parent folder path containing Flutter projects: '',
                                           L (''Folder does not exist: '' @ path_str (resolve w (strip answer)))]\<rparr>)"
  using assms
  by (simp add: scan_parent_folder_def io_bind_def io_read_def input_def Let_def print_def)

lemma path_entry_not_dir:
  assumes "stdin w = Line answer # ks" and "strip answer \<noteq> []"
    and "path_exists (fs w) (resolve w (strip answer))"
    and "\<not> isdir (fs w) (resolve w (strip answer))"
  shows "scan_parent_folder use_fvm w =
           (Inr (), w\<lparr>stdin := ks,
                     stdout := stdout w @ [L ''Enter the parent folder path containing Flutter projects: '',
                                           L (''Path is not a directory: '' @ path_str (resolve w (strip answer)))]\<rparr>)"
  using assms
  by (simp add: scan_parent_folder_def io_bind_def io_read_def input_def Let_def print_def)

text \<open>
  Claim C7, as amended.  Let the operator type \<open>answer\<close> at the confirmation.  When
  \<open>answer\<close>, with the white space at its ends stripped and in small letters, is neither
  \<open>y\<close> nor \<open>yes\<close> (the empty answer is such an answer), the run is cancelled: one line
  of input is read, the only line printed after the prompt is the cancellation, so no
  summary, and no command is started.  When it is \<open>y\<close> or \<open>yes\<close>, the run goes on with the
  cleaning loop over all the discovered projects and then the summary: when the loop
  ends with totals, the command has been started once for every discovered project, in
  the order of the discovery, and however the loop ends the commands started are those
  of the first projects of the discovery, in that order.
\<close>

theorem confirmation_gate:
  assumes "stdin w = Line answer # ks"
  shows "(let n = int (length flutter_projects);
              command_description = (if use_fvm then ''fvm flutter clean'' else ''flutter clean'');
              w2 = w\<lparr>stdin := ks,
                      stdout := stdout w @ confirmation_lines use_fvm n
                                @ [L ''\<newline>Starting cleanup process...'', L (replicate 60 CHR ''-'')]\<rparr>
          in (lower (strip answer) \<notin> set [''y'', ''yes''] \<longrightarrow>
                confirm_and_clean use_fvm flutter_projects w
                  = (Inr (), w\<lparr>stdin := ks,
                                 stdout := stdout w @ confirmation_lines use_fvm n
                                           @ [L ''Operation cancelled.'']\<rparr>)
                \<and> calls (snd (confirm_and_clean use_fvm flutter_projects w)) = calls w)
           \<and> (lower (strip answer) \<in> set [''y'', ''yes''] \<longrightarrow>
                confirm_and_clean use_fvm flutter_projects w
                  = io_bind (process_loop use_fvm n 1 flutter_projects initial_totals)
                      (print_summary command_description n) w2
                \<and> (\<forall>t w3. process_loop use_fvm n 1 flutter_projects initial_totals w2 = (Inr t, w3) \<longrightarrow>
                      calls w3 = calls w @ map (\<lambda>p. (clean_command use_fvm, p)) flutter_projects
                      \<and> confirm_and_clean use_fvm flutter_projects w
                          = print_summary command_description n t w3)
                \<and> (\<forall>x w3. process_loop use_fvm n 1 flutter_projects initial_totals w2 = (x, w3) \<longrightarrow>
                      (\<exists>k \<le> length flutter_projects.
                         calls w3 = calls w @ map (\<lambda>p. (clean_command use_fvm, p))
                                                 (take k flutter_projects)))))"
proof -
  define n where "n = int (length flutter_projects)"
  define command_description where
    "command_description = (if use_fvm then ''fvm flutter clean'' else ''flutter clean'')"
  define w2 where "w2 = w\<lparr>stdin := ks,
                      stdout := stdout w @ confirmation_lines use_fvm n
                                @ [L ''\<newline>Starting cleanup process...'', L (replicate 60 CHR ''-'')]\<rparr>"
  have c2: "calls w2 = calls w" by (simp add: w2_def)
  have 1: "confirm_and_clean use_fvm flutter_projects w
                  = (Inr (), w\<lparr>stdin := ks,
                                 stdout := stdout w @ confirmation_lines use_fvm n
                                           @ [L ''Operation cancelled.'']\<rparr>)
           \<and> calls (snd (confirm_and_clean use_fvm flutter_projects w)) = calls w"
    if "lower (strip answer) \<notin> set [''y'', ''yes'']"
    using confirm_cancel [OF assms that, of use_fvm flutter_projects] by (simp add: n_def)
  have 2: "confirm_and_clean use_fvm flutter_projects w
                  = io_bind (process_loop use_fvm n 1 flutter_projects initial_totals)
                      (print_summary command_description n) w2"
    if "lower (strip answer) \<in> set [''y'', ''yes'']"
    using confirm_proceed [OF assms that, of use_fvm flutter_projects]
    by (simp only: n_def command_description_def w2_def)
  have 3: "calls w3 = calls w @ map (\<lambda>p. (clean_command use_fvm, p)) flutter_projects
           \<and> confirm_and_clean use_fvm flutter_projects w = print_summary command_description n t w3"
    if "lower (strip answer) \<in> set [''y'', ''yes'']"
      and "process_loop use_fvm n 1 flutter_projects initial_totals w2 = (Inr t, w3)" for t w3
    using process_loop_calls [OF that(2)] 2 [OF that(1)] that(2) by (simp add: c2 io_bind_def)
  have 4: "\<exists>k \<le> length flutter_projects.
             calls w3 = calls w @ map (\<lambda>p. (clean_command use_fvm, p)) (take k flutter_projects)"
    if "process_loop use_fvm n 1 flutter_projects initial_totals w2 = (x, w3)" for x w3
    using process_loop_calls_prefix [OF that] by (simp only: c2)
  from 1 2 3 4 show ?thesis
    unfolding Let_def n_def [symmetric] command_description_def [symmetric] w2_def [symmetric]
    by blast
qed


lemma answers_examples:
  "lower (strip ''no'') \<notin> set [''y'', ''yes'']"
  "lower (strip '' YES '') \<in> set [''y'', ''yes'']"
  "lower '' y'' \<notin> set [''y'', ''yes'']"
  "lower (strip '' y'') \<in> set [''y'', ''yes'']"
  "lower ''y'' \<in> set [''y'', ''yes'']"
  "lower (strip ''y'') \<in> set [''y'', ''yes'']"
  by (simp_all add: strip_def py_isspace_def lower_def lower_char_def capital_letters_def
      small_letters_def)

lemmas run_defs = io_bind_def io_then_def io_try_def io_lift_def io_ret_def io_raise_def print_def
  Let_def clean_flutter_project_def subprocess_run_def initial_totals_def accumulate_def
  print_summary_def py_truediv_def confirmation_lines_def failed_outcome_def

text \<open>The theorem at the answers \<open>no\<close> and \<open>YES\<close> between blanks, for one discovered
  project.\<close>

theorem confirmation_gate_witness:
  "stdin (world_ok\<lparr>stdin := [Line ''no'']\<rparr>) = Line ''no'' # []
   \<and> lower (strip ''no'') \<notin> set [''y'', ''yes'']
   \<and> calls (snd (confirm_and_clean True [[''proj'']] (world_ok\<lparr>stdin := [Line ''no'']\<rparr>))) = []
   \<and> stdin (world_ok\<lparr>stdin := [Line '' YES '']\<rparr>) = Line '' YES '' # []
   \<and> lower (strip '' YES '') \<in> set [''y'', ''yes'']
   \<and> calls (snd (confirm_and_clean True [[''proj'']] (world_ok\<lparr>stdin := [Line '' YES '']\<rparr>)))
       = [([''fvm'', ''flutter'', ''clean''], [''proj''])]"
proof -
  have h1: "stdin (world_ok\<lparr>stdin := [Line ''no'']\<rparr>) = Line ''no'' # []" by simp
  have h2: "stdin (world_ok\<lparr>stdin := [Line '' YES '']\<rparr>) = Line '' YES '' # []" by simp
  note g1 = confirmation_gate [OF h1, where use_fvm = True and flutter_projects = "[[''proj'']]", unfolded Let_def, THEN conjunct1,
      rule_format, OF answers_examples(1), THEN conjunct2]
  note g2 = confirmation_gate [OF h2, where use_fvm = True and flutter_projects = "[[''proj'']]", unfolded Let_def, THEN conjunct2,
      rule_format, OF answers_examples(2), THEN conjunct1]
  have 1: "calls (snd (confirm_and_clean True [[''proj'']] (world_ok\<lparr>stdin := [Line ''no'']\<rparr>))) = []"
    using g1 by (simp add: world_ok_def)
  have 2: "calls (snd (confirm_and_clean True [[''proj'']] (world_ok\<lparr>stdin := [Line '' YES '']\<rparr>)))
       = [([''fvm'', ''flutter'', ''clean''], [''proj''])]"
    by (simp only: g2) (simp add: run_defs world_ok_def example_sizes format_examples)
  from h1 h2 1 2 answers_examples(1,2) show ?thesis by blast
qed

text \<open>
  Claim C7 as stated fails twice.  The answer \<open>y\<close> after a blank is neither \<open>y\<close> nor \<open>yes\<close>,
  whatever the case of its letters, and the run is not cancelled: the command is
  started.  And after the answer \<open>y\<close> not every discovered project is processed when an
  exception leaves \<open>clean_flutter_project\<close>: here the executable may not be run, the first
  project raises \<open>PermissionError\<close> and the command is never started for the second.
\<close>

theorem confirmation_gate_counterexample:
  "lower '' y'' \<notin> set [''y'', ''yes'']
   \<and> calls (snd (confirm_and_clean True [[''proj'']] (world_ok\<lparr>stdin := [Line '' y'']\<rparr>)))
       = [([''fvm'', ''flutter'', ''clean''], [''proj''])]
   \<and> lower ''y'' \<in> set [''y'', ''yes'']
   \<and> fst (confirm_and_clean True [[''proj''], [''other'']] (world_denied\<lparr>stdin := [Line ''y'']\<rparr>))
       = Inl PermissionError
   \<and> calls (snd (confirm_and_clean True [[''proj''], [''other'']] (world_denied\<lparr>stdin := [Line ''y'']\<rparr>)))
       = [([''fvm'', ''flutter'', ''clean''], [''proj''])]"
proof -
  have h1: "stdin (world_ok\<lparr>stdin := [Line '' y'']\<rparr>) = Line '' y'' # []" by simp
  have h2: "stdin (world_denied\<lparr>stdin := [Line ''y'']\<rparr>) = Line ''y'' # []" by simp
  have 1: "calls (snd (confirm_and_clean True [[''proj'']] (world_ok\<lparr>stdin := [Line '' y'']\<rparr>)))
       = [([''fvm'', ''flutter'', ''clean''], [''proj''])]"
    by (simp only: confirm_proceed [OF h1 answers_examples(4)])
       (simp add: run_defs world_ok_def example_sizes format_examples)
  have 2: "fst (confirm_and_clean True [[''proj''], [''other'']] (world_denied\<lparr>stdin := [Line ''y'']\<rparr>))
       = Inl PermissionError"
    "calls (snd (confirm_and_clean True [[''proj''], [''other'']] (world_denied\<lparr>stdin := [Line ''y'']\<rparr>)))
       = [([''fvm'', ''flutter'', ''clean''], [''proj''])]"
    by (simp_all only: confirm_proceed [OF h2 answers_examples(6)])
       (simp_all add: run_defs world_denied_def world_ok_def example_sizes format_examples)
  from 1 2 answers_examples(3,5) show ?thesis by blast
qed


text \<open>
  Claim C9, as amended.  Let the operator type \<open>answer\<close> at a prompt.  At the choice of
  the mode, an answer that, stripped, is neither \<open>1\<close> nor \<open>2\<close> is rejected with a
  message and the choice is asked again, from the input that follows.  At the entry of
  the parent folder nothing is asked again: an answer that is empty once stripped, a
  path that does not exist and a path that is no directory each end the run with a
  message, and the input that follows is not read.  At the confirmation an answer
  other than \<open>y\<close> or \<open>yes\<close> cancels the run, and the input that follows is not read.
\<close>

theorem prompt_handling:
  assumes "stdin w = Line answer # ks"
  shows "(strip answer \<noteq> ''1'' \<and> strip answer \<noteq> ''2'' \<longrightarrow>
            ask_choice w =
              ask_choice (w\<lparr>stdin := ks,
                            stdout := stdout w @ [L ''\<newline>Enter your choice (1 or 2): '',
                                                  L ''Invalid choice. Please enter 1 or 2.'']\<rparr>))
       \<and> (strip answer = [] \<longrightarrow>
            scan_parent_folder use_fvm w =
              (Inr (), w\<lparr>stdin := ks,
                        stdout := stdout w @ [L ''Enter the parent folder path containing Flutter projects: '',
                                              L ''No folder path provided.'']\<rparr>))
       \<and> (strip answer \<noteq> [] \<and> \<not> path_exists (fs w) (resolve w (strip answer)) \<longrightarrow>
            scan_parent_folder use_fvm w =
              (Inr (), w\<lparr>stdin := ks,
                        stdout := stdout w @ [L ''Enter the parent folder path containing Flutter projects: '',
                                              L (''Folder does not exist: '' @ path_str (resolve w (strip answer)))]\<rparr>))
       \<and> (strip answer \<noteq> [] \<and> path_exists (fs w) (resolve w (strip answer))
              \<and> \<not> isdir (fs w) (resolve w (strip answer)) \<longrightarrow>
            scan_parent_folder use_fvm w =
              (Inr (), w\<lparr>stdin := ks,
                        stdout := stdout w @ [L ''Enter the parent folder path containing Flutter projects: '',
                                              L (''Path is not a directory: '' @ path_str (resolve w (strip answer)))]\<rparr>))
       \<and> (lower (strip answer) \<notin> set [''y'', ''yes''] \<longrightarrow>
            confirm_and_clean use_fvm flutter_projects w =
              (Inr (), w\<lparr>stdin := ks,
                        stdout := stdout w @ confirmation_lines use_fvm (int (length flutter_projects))
                                  @ [L ''Operation cancelled.'']\<rparr>))"
  using ask_choice_again [OF assms] path_entry_empty [OF assms] path_entry_missing [OF assms]
    path_entry_not_dir [OF assms] confirm_cancel [OF assms]
  by blast

lemma strip_examples:
  "strip ''3'' = ''3''" "strip ''1'' = ''1''" "strip ''  '' = []" "strip [] = []"
  "strip ''nowhere'' = ''nowhere''"
  by (simp_all add: strip_def py_isspace_def)

text \<open>The theorem at the answers \<open>3\<close> to the choice of the mode, two blanks and a missing
  path to the entry of the parent folder, and \<open>no\<close> to the confirmation.  After \<open>3\<close> the
  choice is asked again and the answer \<open>1\<close> that follows is taken.\<close>

theorem prompt_handling_witness:
  "ask_choice (world_ok\<lparr>stdin := [Line ''3'', Line ''1'']\<rparr>)
     = (Inr True, world_ok\<lparr>stdin := [],
                           stdout := [L ''\<newline>Enter your choice (1 or 2): '',
                                      L ''Invalid choice. Please enter 1 or 2.'',
                                      L ''\<newline>Enter your choice (1 or 2): '',
                                      L ''Using FVM for Flutter commands'']\<rparr>)
   \<and> stdin (snd (scan_parent_folder True (world_ok\<lparr>stdin := [Line ''  '', Line ''proj'']\<rparr>)))
       = [Line ''proj'']
   \<and> stdout (snd (scan_parent_folder True (world_ok\<lparr>stdin := [Line ''  '', Line ''proj'']\<rparr>)))
       = [L ''Enter the parent folder path containing Flutter projects: '',
          L ''No folder path provided.'']
   \<and> stdout (snd (scan_parent_folder True
         (world_ok\<lparr>stdin := [Line ''nowhere'', Line ''proj''], resolve := (\<lambda>s. [s])\<rparr>)))
       = [L ''Enter the parent folder path containing Flutter projects: '',
          L ''Folder does not exist: /nowhere'']
   \<and> stdin (snd (confirm_and_clean True [[''proj'']] (world_ok\<lparr>stdin := [Line ''no'', Line ''y'']\<rparr>)))
       = [Line ''y'']"
proof -
  let ?w1 = "world_ok\<lparr>stdin := [Line ''3'', Line ''1'']\<rparr>"
  let ?w2 = "world_ok\<lparr>stdin := [Line ''  '', Line ''proj'']\<rparr>"
  let ?w3 = "world_ok\<lparr>stdin := [Line ''nowhere'', Line ''proj''], resolve := (\<lambda>s. [s])\<rparr>"
  let ?w4 = "world_ok\<lparr>stdin := [Line ''no'', Line ''y'']\<rparr>"
  have h1: "stdin ?w1 = Line ''3'' # [Line ''1'']" by simp
  have h2: "stdin ?w2 = Line ''  '' # [Line ''proj'']" by simp
  have h3: "stdin ?w3 = Line ''nowhere'' # [Line ''proj'']" by simp
  have h4: "stdin ?w4 = Line ''no'' # [Line ''y'']" by simp
  have again: "ask_choice ?w1 =
      ask_choice (?w1\<lparr>stdin := [Line ''1''],
                      stdout := stdout ?w1 @ [L ''\<newline>Enter your choice (1 or 2): '',
                                             L ''Invalid choice. Please enter 1 or 2.'']\<rparr>)"
    using prompt_handling [OF h1, THEN conjunct1] by (simp add: strip_examples)
  have valid: "ask_choice (?w1\<lparr>stdin := [Line ''1''],
                      stdout := stdout ?w1 @ [L ''\<newline>Enter your choice (1 or 2): '',
                                             L ''Invalid choice. Please enter 1 or 2.'']\<rparr>)
      = (Inr True, world_ok\<lparr>stdin := [],
                           stdout := [L ''\<newline>Enter your choice (1 or 2): '',
                                      L ''Invalid choice. Please enter 1 or 2.'',
                                      L ''\<newline>Enter your choice (1 or 2): '',
                                      L ''Using FVM for Flutter commands'']\<rparr>)"
    by (subst ask_choice_valid(1) [where answer = "''1''" and ks = "[]"])
       (simp_all add: strip_examples world_ok_def)
  have 1: "ask_choice ?w1 = (Inr True, world_ok\<lparr>stdin := [],
                           stdout := [L ''\<newline>Enter your choice (1 or 2): '',
                                      L ''Invalid choice. Please enter 1 or 2.'',
                                      L ''\<newline>Enter your choice (1 or 2): '',
                                      L ''Using FVM for Flutter commands'']\<rparr>)"
    using again valid by simp
  have 2: "scan_parent_folder True ?w2 =
      (Inr (), ?w2\<lparr>stdin := [Line ''proj''],
                    stdout := stdout ?w2 @ [L ''Enter the parent folder path containing Flutter projects: '',
                                            L ''No folder path provided.'']\<rparr>)"
    using prompt_handling [OF h2, where use_fvm = True, THEN conjunct2, THEN conjunct1]
    by (simp add: strip_examples)
  have 3: "scan_parent_folder True ?w3 =
      (Inr (), ?w3\<lparr>stdin := [Line ''proj''],
                    stdout := stdout ?w3 @ [L ''Enter the parent folder path containing Flutter projects: '',
                                            L (''Folder does not exist: '' @ path_str (resolve ?w3 (strip ''nowhere'')))]\<rparr>)"
    using prompt_handling [OF h3, where use_fvm = True, THEN conjunct2, THEN conjunct2,
        THEN conjunct1]
    by (simp add: strip_examples world_ok_def example_tree_def path_exists_def)
  have 4: "confirm_and_clean True [[''proj'']] ?w4 =
      (Inr (), ?w4\<lparr>stdin := [Line ''y''],
                    stdout := stdout ?w4 @ confirmation_lines True (int (length [[''proj'']]))
                              @ [L ''Operation cancelled.'']\<rparr>)"
    using prompt_handling [OF h4, where use_fvm = True and flutter_projects = "[[''proj'']]",
        THEN conjunct2, THEN conjunct2, THEN conjunct2, THEN conjunct2]
      answers_examples(1)
    by blast
  have s2: "stdin (snd (scan_parent_folder True ?w2)) = [Line ''proj'']"
    by (simp only: 2) simp
  have t2: "stdout (snd (scan_parent_folder True ?w2))
       = [L ''Enter the parent folder path containing Flutter projects: '',
          L ''No folder path provided.'']"
    by (simp only: 2) (simp add: world_ok_def)
  have s3: "stdout (snd (scan_parent_folder True ?w3))
       = [L ''Enter the parent folder path containing Flutter projects: '',
          L ''Folder does not exist: /nowhere'']"
    by (simp only: 3) (simp add: strip_examples world_ok_def path_str_def)
  have s4: "stdin (snd (confirm_and_clean True [[''proj'']] ?w4)) = [Line ''y'']"
    by (simp only: 4) simp
  from 1 s2 t2 s3 s4 show ?thesis by (intro conjI)
qed

text \<open>
  Claim C9 as stated (at the entry of the parent folder malformed input is asked again)
  fails on the whole program: after the mode \<open>1\<close>, an empty line at the entry of the
  parent folder ends the run with a message; the two lines of input that follow are
  never read and no command is started.
\<close>

theorem prompt_handling_counterexample:
  "fst (scan_and_clean_flutter_projects
          (example_world\<lparr>stdin := [Line ''1'', Line [], Line ''work'', Line ''y'']\<rparr>)) = Inr ()
   \<and> stdin (snd (scan_and_clean_flutter_projects
          (example_world\<lparr>stdin := [Line ''1'', Line [], Line ''work'', Line ''y'']\<rparr>)))
       = [Line ''work'', Line ''y'']
   \<and> last (stdout (snd (scan_and_clean_flutter_projects
          (example_world\<lparr>stdin := [Line ''1'', Line [], Line ''work'', Line ''y'']\<rparr>))))
       = L ''No folder path provided.''
   \<and> calls (snd (scan_and_clean_flutter_projects
          (example_world\<lparr>stdin := [Line ''1'', Line [], Line ''work'', Line ''y'']\<rparr>))) = []"
proof -
  let ?w = "example_world\<lparr>stdin := [Line ''1'', Line [], Line ''work'', Line ''y'']\<rparr>"
  let ?hdr = "[L ''Flutter Version Management'', L (replicate 40 CHR ''-''),
               L ''Do you want to use FVM (Flutter Version Management) or regular Flutter?'',
               L ''1. Use FVM (fvm flutter clean)'', L ''2. Use regular Flutter (flutter clean)'']"
  have a: "ask_fvm_preference ?w = ask_choice (?w\<lparr>stdout := stdout ?w @ ?hdr\<rparr>)"
    by (simp add: ask_fvm_preference_def io_then_def io_bind_def print_def)
  have b: "ask_choice (?w\<lparr>stdout := stdout ?w @ ?hdr\<rparr>)
             = (Inr True, (?w\<lparr>stdout := stdout ?w @ ?hdr\<rparr>)
                  \<lparr>stdin := [Line [], Line ''work'', Line ''y''],
                   stdout := stdout (?w\<lparr>stdout := stdout ?w @ ?hdr\<rparr>)
                             @ [L ''\<newline>Enter your choice (1 or 2): '',
                                L ''Using FVM for Flutter commands'']\<rparr>)"
    by (rule ask_choice_valid(1) [where answer = "''1''"]) (simp_all add: strip_examples)
  let ?w1 = "?w\<lparr>stdin := [Line [], Line ''work'', Line ''y''],
                 stdout := stdout ?w @ ?hdr @ [L ''\<newline>Enter your choice (1 or 2): '',
                                              L ''Using FVM for Flutter commands'', L []]\<rparr>"
  have c: "scan_parent_folder True ?w1
             = (Inr (), ?w1\<lparr>stdin := [Line ''work'', Line ''y''],
                            stdout := stdout ?w1 @ [L ''Enter the parent folder path containing Flutter projects: '',
                                                    L ''No folder path provided.'']\<rparr>)"
    by (rule path_entry_empty [where answer = "[]"]) (simp_all add: strip_examples)
  have body: "scan_body ?w
             = (Inr (), ?w1\<lparr>stdin := [Line ''work'', Line ''y''],
                            stdout := stdout ?w1 @ [L ''Enter the parent folder path containing Flutter projects: '',
                                                    L ''No folder path provided.'']\<rparr>)"
    unfolding scan_body_def io_bind_def [of ask_fvm_preference] a b
    using c by (simp add: io_then_def io_bind_def print_def)
  show ?thesis
    unfolding scan_and_clean_flutter_projects_def io_try_def body
    by (simp add: example_world_def)
qed

end
